theory Spec2Isabelle
  imports Main "HOL-Library.Word"
begin

section \<open>The relay client (package builder, RemoteRelay)\<close>

type_synonym uint64 = "64 word"
type_synonym byte = "8 word"

text \<open>
  The Go errors the relay client creates or passes on.  \<open>ErrValidatorNotFound\<close> is the
  package-level sentinel; \<open>ErrLibrary\<close> stands for an error value produced outside the
  package (by \<open>server.SendHTTPRequest\<close> or by the local relay), identified by its message.
\<close>

datatype error =
    ErrValidatorNotFound
  | ErrSyncOngoing
  | ErrLibrary string
  | ErrNonOkValidators int
  | ErrMakingRequest string error
  | ErrSendingRequest string error
  | ErrNonOkSubmit int string

record ValidatorData =
  Pubkey :: string
  FeeRecipient :: "byte list"
  GasLimit :: uint64

text \<open>The two payload variants of a block submission; the payloads themselves are opaque.\<close>

datatype submission = Bellatrix string | Capella string

text \<open>
  Modelled from the spec: \<open>LocalRelay\<close> (its source file is not among the sources).  The
  spec gives the local-override collaborator two operations, \<open>lookup(slot)\<close> returning a
  registration or not-found, and \<open>acceptBlock(block)\<close>.  The lookup is kept as the function
  it computes; accepted blocks are recorded in the order they arrive.
\<close>

record LocalRelay =
  lr_lookup :: "uint64 \<Rightarrow> error + ValidatorData"
  lr_blocks :: "submission list"

text \<open>
  Modelled from the spec: the operations of \<open>LocalRelay\<close> that \<open>RemoteRelay\<close> calls, as the
  collaborator's \<open>lookup\<close> and \<open>acceptBlock\<close> (one per payload variant).
\<close>

definition LocalRelay_GetValidatorForSlot :: "LocalRelay \<Rightarrow> uint64 \<Rightarrow> error + ValidatorData" where
  "LocalRelay_GetValidatorForSlot l nextSlot = lr_lookup l nextSlot"

definition LocalRelay_submitBlock :: "LocalRelay \<Rightarrow> string \<Rightarrow> LocalRelay" where
  "LocalRelay_submitBlock l msg = l\<lparr>lr_blocks := lr_blocks l @ [Bellatrix msg]\<rparr>"

definition LocalRelay_submitBlockCapella :: "LocalRelay \<Rightarrow> string \<Rightarrow> LocalRelay" where
  "LocalRelay_submitBlockCapella l msg = l\<lparr>lr_blocks := lr_blocks l @ [Capella msg]\<rparr>"

text \<open>
  \<open>RemoteRelay\<close>.  The HTTP client handle carries no state the operations read; the
  read/write lock is modelled by the atomic phases of the operations below.
\<close>

record RemoteRelay =
  endpoint :: string
  localRelay :: "LocalRelay option"
  validatorSyncOngoing :: bool
  lastRequestedSlot :: uint64
  validatorSlotMap :: "uint64 \<rightharpoonup> ValidatorData"

text \<open>One element of \<open>GetValidatorRelayResponse\<close>, with the nested structs flattened.\<close>

record relay_entry =
  e_Slot :: uint64
  e_FeeRecipient :: string
  e_GasLimit :: uint64
  e_Timestamp :: uint64
  e_Pubkey :: string
  e_Signature :: string

text \<open>
  What one call of \<open>server.SendHTTPRequest\<close> hands back: the status code, the error, and
  the decoded destination.
\<close>

record 'a http_result =
  h_code :: int
  h_err :: "error option"
  h_dst :: 'a

text \<open>
  The world outside the package: the outcome of the k-th GET of the validators endpoint,
  and the library functions \<open>hexutil.Decode\<close>, \<open>Address.FromSlice\<close> and
  \<open>strings.ToLower\<close>.
\<close>

record world =
  validators_http :: "nat \<Rightarrow> relay_entry list http_result"
  hexDecode :: "string \<Rightarrow> error + byte list"
  fromSlice :: "byte list \<Rightarrow> byte list"
  toLower :: "string \<Rightarrow> string"

subsection \<open>getSlotValidatorMapFromRelay\<close>

text \<open>The loop body: an entry with an ill-formatted fee recipient is skipped.\<close>

definition add_entry :: "world \<Rightarrow> (uint64 \<rightharpoonup> ValidatorData) \<Rightarrow> relay_entry \<Rightarrow> (uint64 \<rightharpoonup> ValidatorData)" where
  "add_entry w res data =
     (case hexDecode w (e_FeeRecipient data) of
        Inl err \<Rightarrow> res
      | Inr feeRecipientBytes \<Rightarrow>
          res(e_Slot data \<mapsto>
            \<lparr>Pubkey = toLower w (e_Pubkey data),
             FeeRecipient = fromSlice w feeRecipientBytes,
             GasLimit = e_GasLimit data\<rparr>))"

definition getSlotValidatorMapFromRelay ::
  "world \<Rightarrow> relay_entry list http_result \<Rightarrow> error + (uint64 \<rightharpoonup> ValidatorData)" where
  "getSlotValidatorMapFromRelay w resp =
     (case h_err resp of
        Some err \<Rightarrow> Inl err
      | None \<Rightarrow>
          if h_code resp > 299 then Inl (ErrNonOkValidators (h_code resp))
          else Inr (foldl (add_entry w) Map.empty (h_dst resp)))"

text \<open>The fetch number \<open>k\<close> of the relay's life.\<close>

definition fetch :: "world \<Rightarrow> nat \<Rightarrow> error + (uint64 \<rightharpoonup> ValidatorData)" where
  "fetch w k = getSlotValidatorMapFromRelay w (validators_http w k)"

subsection \<open>updateValidatorsMap\<close>

text \<open>
  The retry loop \<open>for err != nil && retries > 0\<close>.  \<open>cur\<close> is the pair \<open>(newMap, err)\<close>
  of the latest attempt, \<open>n\<close> the number of fetches made so far.
\<close>

function retry_loop ::
  "world \<Rightarrow> nat \<Rightarrow> error + (uint64 \<rightharpoonup> ValidatorData) \<Rightarrow> int
     \<Rightarrow> (error + (uint64 \<rightharpoonup> ValidatorData)) \<times> nat" where
  "retry_loop w n cur retries =
     (if isl cur \<and> retries > 0 then retry_loop w (Suc n) (fetch w n) (retries - 1)
      else (cur, n))"
  by pat_completeness auto
termination
  by (relation "measure (\<lambda>(w, n, cur, retries). nat retries)") auto

declare retry_loop.simps [simp del]

text \<open>First critical section: the single-flight guard.\<close>

definition update_begin :: "RemoteRelay \<Rightarrow> error option \<times> RemoteRelay" where
  "update_begin r =
     (if validatorSyncOngoing r then (Some ErrSyncOngoing, r)
      else (None, r\<lparr>validatorSyncOngoing := True\<rparr>))"

text \<open>Second critical section: clear the flag, and on success swap map and watermark.\<close>

definition update_finish ::
  "RemoteRelay \<Rightarrow> uint64 \<Rightarrow> error + (uint64 \<rightharpoonup> ValidatorData) \<Rightarrow> error option \<times> RemoteRelay" where
  "update_finish r currentSlot res =
     (let r1 = r\<lparr>validatorSyncOngoing := False\<rparr> in
      case res of
        Inl err \<Rightarrow> (Some err, r1)
      | Inr newMap \<Rightarrow> (None, r1\<lparr>validatorSlotMap := newMap, lastRequestedSlot := currentSlot\<rparr>))"

text \<open>
  The whole call, run without interference.  The state is the relay together with the
  number of fetches made so far; the result is the returned error and the new state.
\<close>

definition updateValidatorsMap ::
  "world \<Rightarrow> RemoteRelay \<times> nat \<Rightarrow> uint64 \<Rightarrow> int \<Rightarrow> error option \<times> RemoteRelay \<times> nat" where
  "updateValidatorsMap w s currentSlot retries =
     (case s of (r, n) \<Rightarrow>
        (case update_begin r of
           (Some err, r0) \<Rightarrow> (Some err, r0, n)
         | (None, r0) \<Rightarrow>
             (case retry_loop w (Suc n) (fetch w n) retries of
                (res, n') \<Rightarrow>
                  (case update_finish r0 currentSlot res of
                     (err, r1) \<Rightarrow> (err, r1, n')))))"

subsection \<open>NewRemoteRelay\<close>

text \<open>
  Returns the relay, the fetch count, and the error that was logged (if any); the error is
  not part of what the Go function returns.
\<close>

definition NewRemoteRelay ::
  "world \<Rightarrow> nat \<Rightarrow> string \<Rightarrow> LocalRelay option \<Rightarrow> RemoteRelay \<times> nat \<times> error option" where
  "NewRemoteRelay w n ep lr =
     (let r = \<lparr>endpoint = ep, localRelay = lr, validatorSyncOngoing = False,
               lastRequestedSlot = 0, validatorSlotMap = Map.empty\<rparr>
      in case updateValidatorsMap w (r, n) 0 3 of
           (err, r', n') \<Rightarrow> (r', n', err))"

subsection \<open>GetValidatorForSlot\<close>

text \<open>
  The goroutine started under the read lock is returned as the pending call
  \<open>updateValidatorsMap(nextSlot, 1)\<close> it will make; it cannot take the write lock before
  the map has been read, so the lookup reads the relay as it was.
\<close>

definition refresh_due :: "RemoteRelay \<Rightarrow> uint64 \<Rightarrow> bool" where
  "refresh_due r nextSlot \<longleftrightarrow>
     lastRequestedSlot r = 0 \<or> nextSlot div 32 > lastRequestedSlot r div 32"

definition spawned_refresh :: "RemoteRelay \<Rightarrow> uint64 \<Rightarrow> (uint64 \<times> int) option" where
  "spawned_refresh r nextSlot = (if refresh_due r nextSlot then Some (nextSlot, 1) else None)"

text \<open>
  What the lookup returns.  With an error the Go function also returns the zero
  \<open>ValidatorData\<close>, which carries no information and is left out.
\<close>

definition lookup_result :: "RemoteRelay \<Rightarrow> uint64 \<Rightarrow> error + ValidatorData" where
  "lookup_result r nextSlot =
     (let found = validatorSlotMap r nextSlot;
          remote = (case found of Some vd \<Rightarrow> Inr vd | None \<Rightarrow> Inl ErrValidatorNotFound)
      in case localRelay r of
           None \<Rightarrow> remote
         | Some l \<Rightarrow>
             (case LocalRelay_GetValidatorForSlot l nextSlot of
                Inr localValidator \<Rightarrow> Inr localValidator
              | Inl err \<Rightarrow> remote))"

definition GetValidatorForSlot ::
  "RemoteRelay \<Rightarrow> uint64 \<Rightarrow> (uint64 \<times> int) option \<times> (error + ValidatorData)" where
  "GetValidatorForSlot r nextSlot = (spawned_refresh r nextSlot, lookup_result r nextSlot)"

subsection \<open>GetHeader\<close>

text \<open>
  What the accessors of \<open>GetHeaderResponse\<close> return (the type is declared outside the
  sources): the validity flag, the value in wei, the parent hash, the proposer's public
  key and the transactions root.
\<close>

record GetHeaderResponse =
  IsInvalid :: bool
  Value :: int
  ParentHash :: string
  ResponsePubkey :: string
  TransactionsRoot :: string

text \<open>The lines written to the log, by level and message.\<close>

datatype log_line = Info string | Warn string | Error string | Debug string | Trace string

text \<open>\<open>%d\<close> of an unsigned integer.\<close>

fun decimal :: "nat \<Rightarrow> string" where
  "decimal n =
     (if n < 10 then [char_of (48 + n)]
      else decimal (n div 10) @ [char_of (48 + n mod 10)])"

declare decimal.simps [simp del]

definition header_path :: "uint64 \<Rightarrow> string \<Rightarrow> string \<Rightarrow> string" where
  "header_path slot parentHashHex pubkey =
     ''/eth/v1/builder/header/'' @ decimal (unat slot) @ ''/'' @ parentHashHex @ ''/'' @ pubkey"

definition emptyListTxRoot :: string where
  "emptyListTxRoot = ''0x7ffe241ea60187fdb0187bfa22de35d1f9bed7ab061d9401fd47e34a54fbede1''"

definition GetHeader ::
  "RemoteRelay \<Rightarrow> uint64 \<Rightarrow> string \<Rightarrow> string \<Rightarrow> GetHeaderResponse http_result
     \<Rightarrow> error option \<times> log_line list" where
  "GetHeader r slot parentHashHex pubkey resp =
     (let path = header_path slot parentHashHex pubkey;
          log0 = [Info ''get header from remote relay'']
      in case h_err resp of
           Some err \<Rightarrow>
             (Some (ErrMakingRequest (endpoint r @ path) err),
              log0 @ [Error ''error making request to relay''])
         | None \<Rightarrow>
             if h_code resp = 204 then (None, log0 @ [Info ''no-content response''])
             else if IsInvalid (h_dst resp) then (None, log0)
             else
               let log1 = log0 @ [Info ''get bid from remote relay''];
                   isZeroValue = (Value (h_dst resp) = 0);
                   isEmptyListTxRoot = (TransactionsRoot (h_dst resp) = emptyListTxRoot)
               in if isZeroValue \<or> isEmptyListTxRoot
                  then (None, log1 @ [Warn ''ignoring bid with 0 value''])
                  else (None, log1 @ [Debug ''bid received'']))"

subsection \<open>SubmitBlock and SubmitBlockCapella\<close>

definition SubmitBlock ::
  "RemoteRelay \<Rightarrow> string \<Rightarrow> ValidatorData \<Rightarrow> unit http_result \<Rightarrow> error option \<times> RemoteRelay" where
  "SubmitBlock r msg vd resp =
     (case h_err resp of
        Some err \<Rightarrow> (Some (ErrSendingRequest (endpoint r) err), r)
      | None \<Rightarrow>
          if h_code resp > 299 then (Some (ErrNonOkSubmit (h_code resp) (endpoint r)), r)
          else
            (case localRelay r of
               Some l \<Rightarrow> (None, r\<lparr>localRelay := Some (LocalRelay_submitBlock l msg)\<rparr>)
             | None \<Rightarrow> (None, r)))"

definition SubmitBlockCapella ::
  "RemoteRelay \<Rightarrow> string \<Rightarrow> ValidatorData \<Rightarrow> unit http_result \<Rightarrow> error option \<times> RemoteRelay" where
  "SubmitBlockCapella r msg vd resp =
     (case h_err resp of
        Some err \<Rightarrow> (Some (ErrSendingRequest (endpoint r) err), r)
      | None \<Rightarrow>
          if h_code resp > 299 then (Some (ErrNonOkSubmit (h_code resp) (endpoint r)), r)
          else
            (case localRelay r of
               Some l \<Rightarrow> (None, r\<lparr>localRelay := Some (LocalRelay_submitBlockCapella l msg)\<rparr>)
             | None \<Rightarrow> (None, r)))"

subsection \<open>Auxiliary notions for stating the properties\<close>

text \<open>The registration the local relay gives for a slot, when one is configured and has it.\<close>

definition local_override :: "RemoteRelay \<Rightarrow> uint64 \<Rightarrow> ValidatorData option" where
  "local_override r nextSlot =
     (case localRelay r of
        None \<Rightarrow> None
      | Some l \<Rightarrow>
          (case LocalRelay_GetValidatorForSlot l nextSlot of
             Inr v \<Rightarrow> Some v
           | Inl err \<Rightarrow> None))"

text \<open>
  A history of lookups under one schedule: every lookup is answered on the relay as it is,
  and the refresh it starts, if any, runs to its end before the next lookup.  The trace
  holds, for each lookup, the watermark it saw and the refresh it started.
\<close>

fun run_spawned :: "world \<Rightarrow> RemoteRelay \<times> nat \<Rightarrow> (uint64 \<times> int) option \<Rightarrow> RemoteRelay \<times> nat" where
  "run_spawned w s None = s"
| "run_spawned w s (Some (slot, retries)) = snd (updateValidatorsMap w s slot retries)"

fun lookup_trace ::
  "world \<Rightarrow> RemoteRelay \<times> nat \<Rightarrow> uint64 list \<Rightarrow> (uint64 \<times> (uint64 \<times> int) option) list" where
  "lookup_trace w s [] = []"
| "lookup_trace w s (slot # slots) =
     (let sp = fst (GetValidatorForSlot (fst s) slot)
      in (lastRequestedSlot (fst s), sp) # lookup_trace w (run_spawned w s sp) slots)"

subsection \<open>Sample relays and worlds\<close>

text \<open>
  Two registrations; a local relay that registers slot 5 only; a remote peer that is
  unreachable (\<open>world_down\<close>) or answers the first request with one entry for slot 5 and
  is unreachable afterwards (\<open>world_flaky\<close>); the relays constructed against them.
\<close>

definition vd_remote :: ValidatorData where
  "vd_remote = \<lparr>Pubkey = ''0xaa'', FeeRecipient = replicate 20 1, GasLimit = 30000000\<rparr>"

definition vd_local :: ValidatorData where
  "vd_local = \<lparr>Pubkey = ''0xbb'', FeeRecipient = replicate 20 2, GasLimit = 25000000\<rparr>"

definition local_5 :: LocalRelay where
  "local_5 = \<lparr>lr_lookup = (\<lambda>s. if s = 5 then Inr vd_local else Inl (ErrLibrary ''missing validator'')),
              lr_blocks = []\<rparr>"

definition entry_5 :: relay_entry where
  "entry_5 = \<lparr>e_Slot = 5, e_FeeRecipient = ''0x01'', e_GasLimit = 30000000, e_Timestamp = 0,
              e_Pubkey = ''0xAA'', e_Signature = ''0x00''\<rparr>"

definition http_refused :: "relay_entry list http_result" where
  "http_refused = \<lparr>h_code = 0, h_err = Some (ErrLibrary ''connection refused''), h_dst = []\<rparr>"

definition http_ok :: "relay_entry list http_result" where
  "http_ok = \<lparr>h_code = 200, h_err = None, h_dst = [entry_5]\<rparr>"

definition world_of :: "(nat \<Rightarrow> relay_entry list http_result) \<Rightarrow> world" where
  "world_of h = \<lparr>validators_http = h,
                 hexDecode = (\<lambda>s. if s = ''0x01'' then Inr [1] else Inl (ErrLibrary ''invalid hex string'')),
                 fromSlice = (\<lambda>bs. replicate 20 1),
                 toLower = (\<lambda>s. ''0xaa'')\<rparr>"

definition world_down :: world where
  "world_down = world_of (\<lambda>k. http_refused)"

definition world_flaky :: world where
  "world_flaky = world_of (\<lambda>k. if k = 0 then http_ok else http_refused)"

definition relay_booted :: RemoteRelay where
  "relay_booted = fst (NewRemoteRelay world_flaky 0 ''relay'' (Some local_5))"

definition relay_after_failure :: RemoteRelay where
  "relay_after_failure = fst (snd (updateValidatorsMap world_flaky (relay_booted, 1) 5 1))"

definition relay_busy :: RemoteRelay where
  "relay_busy = \<lparr>endpoint = ''relay'', localRelay = None, validatorSyncOngoing = True,
                 lastRequestedSlot = 0, validatorSlotMap = Map.empty\<rparr>"

definition relay_remote_only :: RemoteRelay where
  "relay_remote_only = relay_booted\<lparr>localRelay := None\<rparr>"

definition relay_down :: RemoteRelay where
  "relay_down = fst (NewRemoteRelay world_down 0 ''relay'' None)"

subsection \<open>Sample responses\<close>

definition bid :: GetHeaderResponse where
  "bid = \<lparr>IsInvalid = False, Value = 1000000000000000000, ParentHash = ''0x01'',
          ResponsePubkey = ''0xaa'', TransactionsRoot = ''0x02''\<rparr>"

definition header_http :: "int \<Rightarrow> GetHeaderResponse \<Rightarrow> GetHeaderResponse http_result" where
  "header_http code payload = \<lparr>h_code = code, h_err = None, h_dst = payload\<rparr>"

definition submit_http :: "int \<Rightarrow> error option \<Rightarrow> unit http_result" where
  "submit_http code err = \<lparr>h_code = code, h_err = err, h_dst = ()\<rparr>"

text \<open>Whether a call of \<open>GetHeader\<close> reached the line that accepts the bid.\<close>

definition usable_bid_logged :: "error option \<times> log_line list \<Rightarrow> bool" where
  "usable_bid_logged out \<longleftrightarrow> Debug ''bid received'' \<in> set (snd out)"

section \<open>Loading pending transactions (package backtest)\<close>

text \<open>\<open>strings.SplitN(line, " ", 2)\<close>: cut at the first space, if there is one.\<close>

definition SplitN_space_2 :: "string \<Rightarrow> string list" where
  "SplitN_space_2 line =
     (if CHR '' '' \<in> set line
      then [takeWhile (\<lambda>c. c \<noteq> CHR '' '') line, tl (dropWhile (\<lambda>c. c \<noteq> CHR '' '') line)]
      else [line])"

text \<open>
  The scanning loop.  \<open>HexToAddress\<close> and \<open>UnmarshalJSON\<close> are library functions and are
  taken as parameters; an address missing from the map reads as the empty slice.
\<close>

fun scan_lines ::
  "(string \<Rightarrow> 'a) \<Rightarrow> (string \<Rightarrow> error + 't) \<Rightarrow> ('a \<rightharpoonup> 't list) \<Rightarrow> string list
     \<Rightarrow> error + ('a \<rightharpoonup> 't list)" where
  "scan_lines HexToAddress UnmarshalJSON result [] = Inr result"
| "scan_lines HexToAddress UnmarshalJSON result (line # rest) =
     (let splitLine = SplitN_space_2 line in
      if length splitLine \<noteq> 2 then scan_lines HexToAddress UnmarshalJSON result rest
      else
        let fromString = splitLine ! 0; txString = splitLine ! 1;
            from = HexToAddress fromString
        in case UnmarshalJSON txString of
             Inl err \<Rightarrow> Inl err
           | Inr tx \<Rightarrow>
               scan_lines HexToAddress UnmarshalJSON
                 (result(from \<mapsto> (case result from of None \<Rightarrow> [] | Some txs \<Rightarrow> txs) @ [tx])) rest)"

text \<open>
  The file is given by what \<open>os.Open\<close> returns and, when it opens, the lines the scanner
  yields in order (the scanner's own error is never read by the function).
\<close>

definition PendingTxsFromFile ::
  "(string \<Rightarrow> 'a) \<Rightarrow> (string \<Rightarrow> error + 't) \<Rightarrow> error + string list \<Rightarrow> error + ('a \<rightharpoonup> 't list)" where
  "PendingTxsFromFile HexToAddress UnmarshalJSON file =
     (case file of
        Inl err \<Rightarrow> Inl err
      | Inr lines \<Rightarrow> scan_lines HexToAddress UnmarshalJSON Map.empty lines)"

subsection \<open>What the loader is meant to compute\<close>

text \<open>
  The lines that split into two fields, each as the sender it names and the outcome of
  decoding its transaction.
\<close>

definition parsed_lines ::
  "(string \<Rightarrow> 'a) \<Rightarrow> (string \<Rightarrow> error + 't) \<Rightarrow> string list \<Rightarrow> ('a \<times> (error + 't)) list" where
  "parsed_lines HexToAddress UnmarshalJSON lines =
     map (\<lambda>line. (HexToAddress (SplitN_space_2 line ! 0), UnmarshalJSON (SplitN_space_2 line ! 1)))
       (filter (\<lambda>line. CHR '' '' \<in> set line) lines)"

text \<open>The transactions of one sender, in the order of the lines.\<close>

definition txs_of :: "'a \<Rightarrow> ('a \<times> (error + 't)) list \<Rightarrow> 't list" where
  "txs_of a ps = map (\<lambda>p. projr (snd p)) (filter (\<lambda>p. fst p = a) ps)"

definition PendingTxs_spec ::
  "(string \<Rightarrow> 'a) \<Rightarrow> (string \<Rightarrow> error + 't) \<Rightarrow> string list \<Rightarrow> error + ('a \<rightharpoonup> 't list)" where
  "PendingTxs_spec HexToAddress UnmarshalJSON lines =
     (let ps = parsed_lines HexToAddress UnmarshalJSON lines in
      case List.find (\<lambda>p. isl (snd p)) ps of
        Some p \<Rightarrow> Inl (projl (snd p))
      | None \<Rightarrow> Inr (\<lambda>a. if txs_of a ps = [] then None else Some (txs_of a ps)))"

text \<open>Sample file: a toy address and transaction format.\<close>

definition toy_unmarshal :: "string \<Rightarrow> error + nat" where
  "toy_unmarshal s =
     (if s = ''{n:1}'' then Inr 1 else if s = ''{n:2}'' then Inr 2 else if s = ''{n:3}'' then Inr 3
      else Inl (ErrLibrary s))"

definition toy_lines :: "string list" where
  "toy_lines = [''0xA {n:1}'', ''garbage'', ''0xB {n:2}'', ''0xA {n:3}'']"

definition toy_bad_lines :: "string list" where
  "toy_bad_lines = [''0xA {n:1}'', ''garbage'', ''0xB bad'', ''0xA worse'']"

section \<open>The greedy builder (package miner)\<close>

text \<open>
  An element of the ordered_supply, \<open>TxWithMinerFee\<close>, as its two accessors show it: \<open>Tx()\<close> and
  \<open>Bundle()\<close>, each possibly nil.
\<close>

record ('t, 'b) order =
  Tx :: "'t option"
  Bundle :: "'b option"

text \<open>
  What \<open>mergeOrdersIntoEnvDiff\<close> calls and does not define: the cursor operations of
  \<open>TransactionsByPriceAndNonce\<close> on a supply \<open>'o\<close>, the two commit operations on an
  environment diff \<open>'e\<close> (the chain data and the interrupt flag are fixed in them),
  \<open>EffectiveGasTip\<close>, and the two disposition constants.  \<open>commitTx\<close> returns the receipt,
  the disposition, the error and the environment diff it leaves; \<open>commitBundle\<close> the error
  and the environment diff it leaves.
\<close>

record ('e, 'o, 't, 'b, 'r) deps =
  Peek :: "'o \<Rightarrow> ('t, 'b) order option"
  Shift :: "'o \<Rightarrow> 'o"
  Pop :: "'o \<Rightarrow> 'o"
  commitTx :: "'e \<Rightarrow> 't \<Rightarrow> 'r option \<times> int \<times> error option \<times> 'e"
  commitBundle :: "'e \<Rightarrow> 'b \<Rightarrow> error option \<times> 'e"
  EffectiveGasTip :: "'t \<Rightarrow> 'e \<Rightarrow> error option"
  shiftTx :: int
  popTx :: int

text \<open>The variables of the loop, and the lines it has logged.\<close>

record ('e, 'o, 'b) merge_state =
  envDiff :: 'e
  orders :: 'o
  usedBundles :: "'b list"
  txCount :: nat
  bundleCount :: nat
  logged :: "log_line list"

text \<open>\<open>switch skip { case shiftTx: orders.Shift(); case popTx: orders.Pop() }\<close>\<close>

definition apply_skip :: "('e, 'o, 't, 'b, 'r) deps \<Rightarrow> int \<Rightarrow> 'o \<Rightarrow> 'o" where
  "apply_skip d skip os =
     (if skip = shiftTx d then Shift d os
      else if skip = popTx d then Pop d os
      else os)"

text \<open>One pass through the body of the loop; \<open>None\<close> is the \<open>break\<close>.\<close>

definition merge_step ::
  "('e, 'o, 't, 'b, 'r) deps \<Rightarrow> ('e, 'o, 'b) merge_state \<Rightarrow> ('e, 'o, 'b) merge_state option" where
  "merge_step d s =
     (case Peek d (orders s) of
        None \<Rightarrow> None
      | Some order \<Rightarrow>
          (case Tx order of
             Some tx \<Rightarrow>
               (case commitTx d (envDiff s) tx of
                  (receipt, skip, err, env') \<Rightarrow>
                    let s1 = s\<lparr>envDiff := env', orders := apply_skip d skip (orders s),
                                txCount := txCount s + 1\<rparr>
                    in (case err of
                          Some e \<Rightarrow> Some (s1\<lparr>logged := logged s @ [Trace ''could not apply tx'']\<rparr>)
                        | None \<Rightarrow>
                            (case EffectiveGasTip d tx env' of
                               None \<Rightarrow> Some (s1\<lparr>logged := logged s @ [Info ''Included tx'']\<rparr>)
                             | Some e \<Rightarrow> Some s1)))
           | None \<Rightarrow>
               (case Bundle order of
                  Some bundle \<Rightarrow>
                    (case commitBundle d (envDiff s) bundle of
                       (err, env') \<Rightarrow>
                         let s1 = s\<lparr>envDiff := env', orders := Pop d (orders s),
                                     bundleCount := bundleCount s + 1\<rparr>
                         in (case err of
                               Some e \<Rightarrow>
                                 Some (s1\<lparr>logged := logged s @ [Trace ''Could not apply bundle'']\<rparr>)
                             | None \<Rightarrow>
                                 Some (s1\<lparr>logged := logged s @ [Info ''Included bundle''],
                                          usedBundles := usedBundles s @ [bundle]\<rparr>)))
                | None \<Rightarrow> Some s)))"

text \<open>The loop \<open>for { ... }\<close>: it returns the state at the \<open>break\<close>, if it gets there.\<close>

partial_function (option) merge_loop ::
  "('e, 'o, 't, 'b, 'r) deps \<Rightarrow> ('e, 'o, 'b) merge_state \<Rightarrow> ('e, 'o, 'b) merge_state option" where
  "merge_loop d s =
     (case merge_step d s of
        None \<Rightarrow> Some s
      | Some s' \<Rightarrow> merge_loop d s')"

text \<open>
  The function: the used bundles it returns, with the environment diff and the supply as
  it leaves them.
\<close>

definition mergeOrdersIntoEnvDiff ::
  "('e, 'o, 't, 'b, 'r) deps \<Rightarrow> 'e \<Rightarrow> 'o \<Rightarrow> ('b list \<times> 'e \<times> 'o) option" where
  "mergeOrdersIntoEnvDiff d env os =
     map_option (\<lambda>s. (usedBundles s, envDiff s, orders s))
       (merge_loop d \<lparr>envDiff = env, orders = os, usedBundles = [], txCount = 0,
                      bundleCount = 0, logged = []\<rparr>)"


subsection \<open>A supply and commit operations to run the loop on\<close>

record toy_tx =
  sender :: nat
  nonce :: nat
  gasPrice :: nat

record toy_bundle =
  mevGasPrice :: nat
  bundleHash :: string

text \<open>
  Modelled from the spec: \<open>OrderedSupply\<close> (\<open>TransactionsByPriceAndNonce\<close> is not among
  the sources).  The spec gives it three cursor operations: peek inspects the best order
  without consuming it; advance consumes the current order and moves to the next
  transaction of the same sender; drop consumes the current order and discards the
  sender's remaining queue, or the bundle.  \<open>heads\<close> are the eligible orders, best price
  first; \<open>waiting\<close> are the transactions behind them, in nonce order.
\<close>

record ordered_supply =
  heads :: "(toy_tx, toy_bundle) order list"
  waiting :: "toy_tx list"

text \<open>
  Modelled from the spec: the ranking of the supply (a transaction by its gas price, a
  bundle by its aggregate gas price, best first) and its operations peek (\<open>Peek\<close>),
  advance (\<open>Shift\<close>) and drop (\<open>Pop\<close>).
\<close>

definition order_price :: "(toy_tx, toy_bundle) order \<Rightarrow> nat" where
  "order_price x =
     (case Tx x of
        Some t \<Rightarrow> gasPrice t
      | None \<Rightarrow> (case Bundle x of Some b \<Rightarrow> mevGasPrice b | None \<Rightarrow> 0))"

fun insert_by_price ::
  "(toy_tx, toy_bundle) order \<Rightarrow> (toy_tx, toy_bundle) order list \<Rightarrow> (toy_tx, toy_bundle) order list" where
  "insert_by_price x [] = [x]"
| "insert_by_price x (h # hs) =
     (if order_price h < order_price x then x # h # hs else h # insert_by_price x hs)"

definition supply_Peek :: "ordered_supply \<Rightarrow> (toy_tx, toy_bundle) order option" where
  "supply_Peek os = (case heads os of [] \<Rightarrow> None | h # hs \<Rightarrow> Some h)"

definition supply_Pop :: "ordered_supply \<Rightarrow> ordered_supply" where
  "supply_Pop os =
     (case heads os of
        [] \<Rightarrow> os
      | h # hs \<Rightarrow>
          (case Tx h of
             Some t \<Rightarrow> \<lparr>heads = hs, waiting = filter (\<lambda>u. sender u \<noteq> sender t) (waiting os)\<rparr>
           | None \<Rightarrow> \<lparr>heads = hs, waiting = waiting os\<rparr>))"

definition supply_Shift :: "ordered_supply \<Rightarrow> ordered_supply" where
  "supply_Shift os =
     (case heads os of
        [] \<Rightarrow> os
      | h # hs \<Rightarrow>
          (case Tx h of
             Some t \<Rightarrow>
               (case List.find (\<lambda>u. sender u = sender t) (waiting os) of
                  Some u \<Rightarrow>
                    \<lparr>heads = insert_by_price \<lparr>Tx = Some u, Bundle = None\<rparr> hs,
                     waiting = remove1 u (waiting os)\<rparr>
                | None \<Rightarrow> \<lparr>heads = hs, waiting = waiting os\<rparr>)
           | None \<Rightarrow> \<lparr>heads = hs, waiting = waiting os\<rparr>))"

text \<open>
  Commit operations on a gas counter: a transaction of price 0 runs out of gas and is to be
  dropped, one of price 1 has a stale nonce and is to be passed over, any other is
  included; a bundle of price 0 fails, any other is included.
\<close>

definition toy_commitTx :: "nat \<Rightarrow> toy_tx \<Rightarrow> nat option \<times> int \<times> error option \<times> nat" where
  "toy_commitTx env t =
     (if gasPrice t = 0 then (None, 2, Some (ErrLibrary ''gas limit reached''), env)
      else if gasPrice t = 1 then (None, 1, Some (ErrLibrary ''nonce too low''), env)
      else (Some 21000, 1, None, env + 21000))"

definition toy_commitBundle :: "nat \<Rightarrow> toy_bundle \<Rightarrow> error option \<times> nat" where
  "toy_commitBundle env b =
     (if mevGasPrice b = 0 then (Some (ErrLibrary ''bundle failed''), env)
      else (None, env + 100000))"

definition toy :: "(nat, ordered_supply, toy_tx, toy_bundle, nat) deps" where
  "toy = \<lparr>Peek = supply_Peek, Shift = supply_Shift, Pop = supply_Pop,
           commitTx = toy_commitTx, commitBundle = toy_commitBundle,
           EffectiveGasTip = (\<lambda>t env. None), shiftTx = 1, popTx = 2\<rparr>"

definition tx_of :: "nat \<Rightarrow> nat \<Rightarrow> nat \<Rightarrow> (toy_tx, toy_bundle) order" where
  "tx_of a n p = \<lparr>Tx = Some \<lparr>sender = a, nonce = n, gasPrice = p\<rparr>, Bundle = None\<rparr>"

definition bundle_of :: "nat \<Rightarrow> string \<Rightarrow> (toy_tx, toy_bundle) order" where
  "bundle_of p h = \<lparr>Tx = None, Bundle = Some \<lparr>mevGasPrice = p, bundleHash = h\<rparr>\<rparr>"

definition start :: "ordered_supply \<Rightarrow> (nat, ordered_supply, toy_bundle) merge_state" where
  "start os = \<lparr>envDiff = 0, orders = os, usedBundles = [], txCount = 0, bundleCount = 0,
               logged = []\<rparr>"

text \<open>A sender whose first transaction runs out of gas, with a second one behind it.\<close>

definition supply_out_of_gas :: ordered_supply where
  "supply_out_of_gas =
     \<lparr>heads = [tx_of 1 0 0], waiting = [\<lparr>sender = 1, nonce = 1, gasPrice = 7\<rparr>]\<rparr>"

text \<open>A good bundle, a stale transaction with a good one behind it, and a failing bundle.\<close>

definition supply_mixed :: ordered_supply where
  "supply_mixed =
     \<lparr>heads = [bundle_of 30 ''C'', tx_of 1 0 1, bundle_of 0 ''D''],
      waiting = [\<lparr>sender = 1, nonce = 1, gasPrice = 50\<rparr>]\<rparr>"

text \<open>A stale transaction with a good one of the same sender behind it.\<close>

definition supply_stale :: ordered_supply where
  "supply_stale =
     \<lparr>heads = [tx_of 1 0 1], waiting = [\<lparr>sender = 1, nonce = 1, gasPrice = 50\<rparr>]\<rparr>"

text \<open>A single failing bundle.\<close>

definition supply_failing :: ordered_supply where
  "supply_failing = \<lparr>heads = [bundle_of 0 ''D''], waiting = []\<rparr>"

text \<open>Every eligible order of the supply is a transaction or a bundle.\<close>

definition well_formed :: "(nat, ordered_supply, toy_bundle) merge_state \<Rightarrow> bool" where
  "well_formed s \<longleftrightarrow> list_all (\<lambda>x. Tx x \<noteq> None \<or> Bundle x \<noteq> None) (heads (orders s))"

definition remaining :: "(nat, ordered_supply, toy_bundle) merge_state \<Rightarrow> nat" where
  "remaining s = length (heads (orders s)) + length (waiting (orders s))"

section \<open>Properties of the relay client\<close>

subsection \<open>The retry loop\<close>

lemma retry_loop_step:
  "isl cur \<Longrightarrow> retries > 0 \<Longrightarrow>
     retry_loop w n cur retries = retry_loop w (Suc n) (fetch w n) (retries - 1)"
  by (simp add: retry_loop.simps [of w n cur retries])

lemma retry_loop_stop:
  "\<not> (isl cur \<and> retries > 0) \<Longrightarrow> retry_loop w n cur retries = (cur, n)"
  by (subst retry_loop.simps) auto

lemma retry_loop_range:
  "retry_loop w m cur retries = (res, m') \<Longrightarrow> m \<le> m' \<and> m' \<le> m + nat retries"
proof (induction w m cur retries arbitrary: res m' rule: retry_loop.induct)
  case (1 w n cur retries)
  show ?case
  proof (cases "isl cur \<and> retries > 0")
    case True
    then have "retry_loop w (Suc n) (fetch w n) (retries - 1) = (res, m')"
      using "1.prems" by (simp add: retry_loop_step)
    from "1.IH" [OF True this] True show ?thesis by linarith
  next
    case False
    then show ?thesis using "1.prems" by (simp add: retry_loop_stop)
  qed
qed

lemma retry_loop_last:
  "retry_loop w m cur retries = (res, m') \<Longrightarrow>
     (m' = m \<and> res = cur) \<or> (m < m' \<and> res = fetch w (m' - 1))"
proof (induction w m cur retries arbitrary: res m' rule: retry_loop.induct)
  case (1 w n cur retries)
  show ?case
  proof (cases "isl cur \<and> retries > 0")
    case True
    then have eq: "retry_loop w (Suc n) (fetch w n) (retries - 1) = (res, m')"
      using "1.prems" by (simp add: retry_loop_step)
    from "1.IH" [OF True eq] show ?thesis by auto
  next
    case False
    then show ?thesis using "1.prems" by (simp add: retry_loop_stop)
  qed
qed

lemma retry_loop_error_exhausts:
  "retry_loop w m cur retries = (Inl e, m') \<Longrightarrow> m' = m + nat retries"
proof (induction w m cur retries arbitrary: m' rule: retry_loop.induct)
  case (1 w n cur retries)
  show ?case
  proof (cases "isl cur \<and> retries > 0")
    case True
    then have eq: "retry_loop w (Suc n) (fetch w n) (retries - 1) = (Inl e, m')"
      using "1.prems" by (simp add: retry_loop_step)
    from "1.IH" [OF True eq] True show ?thesis by linarith
  next
    case False
    then have "retry_loop w n cur retries = (cur, n)" by (rule retry_loop_stop)
    with "1.prems" have "cur = Inl e" "m' = n" by simp_all
    with False show ?thesis by simp
  qed
qed

lemma retry_loop_all_fail:
  "isl cur \<Longrightarrow> \<forall>k < nat retries. isl (fetch w (m + k)) \<Longrightarrow>
     retry_loop w m cur retries =
       ((if retries > 0 then fetch w (m + nat retries - 1) else cur), m + nat retries)"
proof (induction w m cur retries rule: retry_loop.induct)
  case (1 w n cur retries)
  show ?case
  proof (cases "retries > 0")
    case True
    with "1.prems" have c: "isl cur \<and> retries > 0" by simp
    have f0: "isl (fetch w n)" using "1.prems"(2) True by (auto dest: spec [of _ 0])
    have all: "\<forall>k < nat (retries - 1). isl (fetch w (Suc n + k))"
    proof (intro allI impI)
      fix k assume "k < nat (retries - 1)"
      then have "Suc k < nat retries" by linarith
      with "1.prems"(2) have "isl (fetch w (n + Suc k))" by blast
      then show "isl (fetch w (Suc n + k))" by simp
    qed
    have "retry_loop w n cur retries = retry_loop w (Suc n) (fetch w n) (retries - 1)"
      using c by (simp add: retry_loop_step)
    also have "\<dots> = ((if retries - 1 > 0 then fetch w (Suc n + nat (retries - 1) - 1) else fetch w n),
                     Suc n + nat (retries - 1))"
      using "1.IH" [OF c f0 all] .
    also have "\<dots> = (fetch w (n + nat retries - 1), n + nat retries)"
    proof (cases "retries - 1 > 0")
      case True
      then have "Suc n + nat (retries - 1) = n + nat retries"
        and "Suc n + nat (retries - 1) - 1 = n + nat retries - 1" by linarith+
      then show ?thesis using True by simp
    next
      case False
      with \<open>retries > 0\<close> have "retries = 1" by simp
      then show ?thesis by simp
    qed
    finally show ?thesis using True by simp
  next
    case False
    then show ?thesis by (simp add: retry_loop_stop)
  qed
qed

subsection \<open>The sample worlds\<close>

lemma fetch_down: "fetch world_down k = Inl (ErrLibrary ''connection refused'')"
  by (simp add: fetch_def getSlotValidatorMapFromRelay_def world_down_def world_of_def http_refused_def)

lemma fetch_flaky_0: "fetch world_flaky 0 = Inr [5 \<mapsto> vd_remote]"
  by (simp add: fetch_def getSlotValidatorMapFromRelay_def world_flaky_def world_of_def http_ok_def
      add_entry_def entry_5_def vd_remote_def)

lemma fetch_flaky_Suc: "fetch world_flaky (Suc k) = Inl (ErrLibrary ''connection refused'')"
  by (simp add: fetch_def getSlotValidatorMapFromRelay_def world_flaky_def world_of_def http_refused_def)

lemma relay_booted_eq:
  "NewRemoteRelay world_flaky 0 ''relay'' (Some local_5) =
     (\<lparr>endpoint = ''relay'', localRelay = Some local_5, validatorSyncOngoing = False,
       lastRequestedSlot = 0, validatorSlotMap = [5 \<mapsto> vd_remote]\<rparr>, 1, None)"
  by (simp add: NewRemoteRelay_def updateValidatorsMap_def update_begin_def update_finish_def
      fetch_flaky_0 retry_loop_stop)

subsection \<open>Refresh\<close>

lemma updateValidatorsMap_fail:
  assumes idle: "\<not> validatorSyncOngoing r"
    and fail: "\<forall>k \<le> nat retries. isl (fetch w (n + k))"
  shows "updateValidatorsMap w (r, n) currentSlot retries =
           (Some (projl (fetch w (n + nat retries))), r, Suc (n + nat retries))"
proof -
  have f0: "isl (fetch w n)" using fail by (auto dest: spec [of _ 0])
  have rest: "\<forall>k < nat retries. isl (fetch w (Suc n + k))"
  proof (intro allI impI)
    fix k assume "k < nat retries"
    then have "Suc k \<le> nat retries" by simp
    with fail have "isl (fetch w (n + Suc k))" by blast
    then show "isl (fetch w (Suc n + k))" by simp
  qed
  have last: "isl (fetch w (n + nat retries))" using fail by blast
  have loop: "retry_loop w (Suc n) (fetch w n) retries = (fetch w (n + nat retries), Suc (n + nat retries))"
    using retry_loop_all_fail [OF f0 rest] by (cases "retries > 0") simp_all
  from last obtain e where e: "fetch w (n + nat retries) = Inl e" by (auto simp: isl_def)
  have r: "r\<lparr>validatorSyncOngoing := True\<rparr>\<lparr>validatorSyncOngoing := False\<rparr> = r"
    using idle by simp
  show ?thesis
    using idle by (simp add: updateValidatorsMap_def update_begin_def update_finish_def loop e r)
qed

lemma lookup_result_cases:
  "lookup_result r s =
     (case local_override r s of
        Some v \<Rightarrow> Inr v
      | None \<Rightarrow> (case validatorSlotMap r s of Some vd \<Rightarrow> Inr vd | None \<Rightarrow> Inl ErrValidatorNotFound))"
  by (simp add: lookup_result_def local_override_def split: option.splits sum.splits)

text \<open>
  C1.  A call of \<open>updateValidatorsMap\<close> made while the in-progress flag is set returns
  the error "sync is ongoing" at once: the fetch count does not move (no request is sent),
  and the relay, hence its validator map, its watermark and the flag itself, is returned
  as it was.
\<close>

theorem updateValidatorsMap_sync_ongoing:
  "validatorSyncOngoing r \<Longrightarrow>
     updateValidatorsMap w (r, n) currentSlot retries = (Some ErrSyncOngoing, r, n)"
  by (simp add: updateValidatorsMap_def update_begin_def)

theorem updateValidatorsMap_sync_ongoing_witness:
  "validatorSyncOngoing relay_busy \<and>
   updateValidatorsMap world_flaky (relay_busy, 0) 64 1 = (Some ErrSyncOngoing, relay_busy, 0)"
  using updateValidatorsMap_sync_ongoing [of relay_busy world_flaky 0 64 1]
  by (simp add: relay_busy_def)

lemma relay_booted_simps:
  "relay_booted = \<lparr>endpoint = ''relay'', localRelay = Some local_5, validatorSyncOngoing = False,
       lastRequestedSlot = 0, validatorSlotMap = [5 \<mapsto> vd_remote]\<rparr>"
  by (simp add: relay_booted_def relay_booted_eq)

lemma vd_local_neq_remote: "vd_local \<noteq> vd_remote"
  by (simp add: vd_local_def vd_remote_def)

lemma local_override_booted_5: "local_override relay_booted 5 = Some vd_local"
  by (simp add: local_override_def relay_booted_simps LocalRelay_GetValidatorForSlot_def local_5_def)

lemma local_override_booted_6: "local_override relay_booted 6 = None"
  by (simp add: local_override_def relay_booted_simps LocalRelay_GetValidatorForSlot_def local_5_def)

lemma flaky_after_boot_fails: "\<forall>k \<le> nat 1. isl (fetch world_flaky (1 + k))"
  by (simp add: fetch_flaky_Suc)

text \<open>
  C2, as stated, fails.  The relay \<open>relay_booted\<close> was constructed while the remote peer
  answered (its map holds slot 5) and has a local relay that also registers slot 5.  The
  refresh for slot 5 then fails on the first attempt and on the retry, and returns the
  fetch error; yet the lookup of slot 5 afterwards does not return the stale entry of the
  map: the local relay's registration takes precedence.
\<close>

theorem stale_lookup_counterexample:
  "\<not> validatorSyncOngoing relay_booted \<and>
   validatorSlotMap relay_booted 5 = Some vd_remote \<and>
   fst (updateValidatorsMap world_flaky (relay_booted, 1) 5 1) = Some (ErrLibrary ''connection refused'') \<and>
   snd (GetValidatorForSlot relay_after_failure 5) \<noteq> Inr vd_remote"
proof -
  have idle: "\<not> validatorSyncOngoing relay_booted" by (simp add: relay_booted_simps)
  have u: "updateValidatorsMap world_flaky (relay_booted, 1) 5 1 =
             (Some (ErrLibrary ''connection refused''), relay_booted, 3)"
    using updateValidatorsMap_fail [OF idle flaky_after_boot_fails, of 5]
    by (simp add: fetch_flaky_Suc numeral_3_eq_3)
  have a: "relay_after_failure = relay_booted"
    unfolding relay_after_failure_def u by simp
  have "snd (GetValidatorForSlot relay_after_failure 5) = Inr vd_local"
    by (simp add: a GetValidatorForSlot_def lookup_result_cases local_override_booted_5)
  then show ?thesis
    using idle u vd_local_neq_remote by (simp add: relay_booted_simps)
qed

text \<open>
  C2, amended.  When the refresh starts (the flag is clear) and the fetch fails on the
  first attempt and on each of the retries, the call returns the error of the last
  attempt after \<open>1 + retries\<close> fetches, the flag is clear afterwards, and the validator map
  and the watermark are the ones held before.  A lookup afterwards, for a slot of the old
  map, returns the stale entry unless the local relay has a registration for the slot,
  which then wins.
\<close>

theorem updateValidatorsMap_exhausted:
  assumes "\<not> validatorSyncOngoing r"
    and "\<forall>k \<le> nat retries. isl (fetch w (n + k))"
  shows "\<exists>e r' n'. updateValidatorsMap w (r, n) currentSlot retries = (Some e, r', n') \<and>
           fetch w (n + nat retries) = Inl e \<and>
           n' = Suc (n + nat retries) \<and>
           \<not> validatorSyncOngoing r' \<and>
           validatorSlotMap r' = validatorSlotMap r \<and>
           lastRequestedSlot r' = lastRequestedSlot r \<and>
           (\<forall>s vd. validatorSlotMap r s = Some vd \<longrightarrow>
              snd (GetValidatorForSlot r' s) =
                (case local_override r' s of Some v \<Rightarrow> Inr v | None \<Rightarrow> Inr vd))"
proof -
  from assms(2) have "isl (fetch w (n + nat retries))" by blast
  then obtain e where e: "fetch w (n + nat retries) = Inl e" by (auto simp: isl_def)
  have u: "updateValidatorsMap w (r, n) currentSlot retries = (Some e, r, Suc (n + nat retries))"
    using updateValidatorsMap_fail [OF assms, of currentSlot] e by simp
  have "\<forall>s vd. validatorSlotMap r s = Some vd \<longrightarrow>
          snd (GetValidatorForSlot r s) =
            (case local_override r s of Some v \<Rightarrow> Inr v | None \<Rightarrow> Inr vd)"
    by (simp add: GetValidatorForSlot_def lookup_result_cases split: option.splits)
  with u e assms(1) show ?thesis by blast
qed

theorem updateValidatorsMap_exhausted_witness:
  "\<not> validatorSyncOngoing relay_remote_only \<and>
   isl (fetch world_flaky 1) \<and> isl (fetch world_flaky 2) \<and>
   validatorSlotMap relay_remote_only 5 = Some vd_remote \<and>
   (\<exists>r'. updateValidatorsMap world_flaky (relay_remote_only, 1) 5 1 =
            (Some (ErrLibrary ''connection refused''), r', 3) \<and>
          \<not> validatorSyncOngoing r' \<and>
          validatorSlotMap r' = validatorSlotMap relay_remote_only \<and>
          lastRequestedSlot r' = lastRequestedSlot relay_remote_only \<and>
          snd (GetValidatorForSlot r' 5) = Inr vd_remote)"
proof -
  have idle: "\<not> validatorSyncOngoing relay_remote_only"
    by (simp add: relay_remote_only_def relay_booted_simps)
  have m: "validatorSlotMap relay_remote_only 5 = Some vd_remote"
    by (simp add: relay_remote_only_def relay_booted_simps)
  have lo: "\<And>r'. localRelay r' = None \<Longrightarrow> local_override r' 5 = None"
    by (simp add: local_override_def)
  from updateValidatorsMap_exhausted [OF idle flaky_after_boot_fails, of 5]
  obtain e r' n' where
    u: "updateValidatorsMap world_flaky (relay_remote_only, 1) 5 1 = (Some e, r', n')"
    and e: "fetch world_flaky (1 + nat 1) = Inl e"
    and n': "n' = Suc (1 + nat 1)"
    and f: "\<not> validatorSyncOngoing r'"
    and vm: "validatorSlotMap r' = validatorSlotMap relay_remote_only"
    and lw: "lastRequestedSlot r' = lastRequestedSlot relay_remote_only"
    and g: "\<forall>s vd. validatorSlotMap relay_remote_only s = Some vd \<longrightarrow>
              snd (GetValidatorForSlot r' s) =
                (case local_override r' s of Some v \<Rightarrow> Inr v | None \<Rightarrow> Inr vd)"
    by blast
  have e': "e = ErrLibrary ''connection refused''" using e by (simp add: fetch_flaky_Suc)
  have r'': "r' = relay_remote_only"
    using u updateValidatorsMap_fail [OF idle flaky_after_boot_fails, of 5] by simp
  have "local_override r' 5 = None" by (rule lo) (simp add: r'' relay_remote_only_def)
  with g m have "snd (GetValidatorForSlot r' 5) = Inr vd_remote" by simp
  moreover have "isl (fetch world_flaky 1)" "isl (fetch world_flaky 2)"
    using fetch_flaky_Suc [of 0] fetch_flaky_Suc [of 1] by (simp_all add: numeral_2_eq_2)
  ultimately show ?thesis using u e' n' f vm lw idle m by simp
qed

lemma relay_remote_only_simps:
  "relay_remote_only = \<lparr>endpoint = ''relay'', localRelay = None, validatorSyncOngoing = False,
       lastRequestedSlot = 0, validatorSlotMap = [5 \<mapsto> vd_remote]\<rparr>"
  by (simp add: relay_remote_only_def relay_booted_simps)

text \<open>
  C3.  The lookup returns the local relay's registration whenever a local relay is
  configured and its own lookup of the slot succeeds, whatever the remote map holds;
  otherwise the remote map's entry for the slot when there is one; otherwise the sentinel
  \<open>ErrValidatorNotFound\<close>.
\<close>

theorem GetValidatorForSlot_precedence:
  "(local_override r nextSlot = Some v \<longrightarrow> snd (GetValidatorForSlot r nextSlot) = Inr v) \<and>
   (local_override r nextSlot = None \<and> validatorSlotMap r nextSlot = Some vd \<longrightarrow>
      snd (GetValidatorForSlot r nextSlot) = Inr vd) \<and>
   (local_override r nextSlot = None \<and> validatorSlotMap r nextSlot = None \<longrightarrow>
      snd (GetValidatorForSlot r nextSlot) = Inl ErrValidatorNotFound) \<and>
   (local_override r nextSlot = Some v \<longleftrightarrow>
      (\<exists>l. localRelay r = Some l \<and> LocalRelay_GetValidatorForSlot l nextSlot = Inr v))"
proof -
  have "local_override r nextSlot = Some v \<longleftrightarrow>
      (\<exists>l. localRelay r = Some l \<and> LocalRelay_GetValidatorForSlot l nextSlot = Inr v)"
    by (auto simp: local_override_def split: option.splits sum.splits)
  moreover have "local_override r nextSlot = Some v \<longrightarrow> snd (GetValidatorForSlot r nextSlot) = Inr v"
    by (simp add: GetValidatorForSlot_def lookup_result_cases)
  moreover have "local_override r nextSlot = None \<and> validatorSlotMap r nextSlot = Some vd \<longrightarrow>
      snd (GetValidatorForSlot r nextSlot) = Inr vd"
    by (simp add: GetValidatorForSlot_def lookup_result_cases)
  moreover have "local_override r nextSlot = None \<and> validatorSlotMap r nextSlot = None \<longrightarrow>
      snd (GetValidatorForSlot r nextSlot) = Inl ErrValidatorNotFound"
    by (simp add: GetValidatorForSlot_def lookup_result_cases)
  ultimately show ?thesis by blast
qed

theorem GetValidatorForSlot_precedence_witness:
  "local_override relay_booted 5 = Some vd_local \<and>
   validatorSlotMap relay_booted 5 = Some vd_remote \<and>
   snd (GetValidatorForSlot relay_booted 5) = Inr vd_local \<and>
   local_override relay_remote_only 5 = None \<and>
   validatorSlotMap relay_remote_only 5 = Some vd_remote \<and>
   snd (GetValidatorForSlot relay_remote_only 5) = Inr vd_remote \<and>
   local_override relay_booted 6 = None \<and>
   validatorSlotMap relay_booted 6 = None \<and>
   snd (GetValidatorForSlot relay_booted 6) = Inl ErrValidatorNotFound"
proof -
  have a: "local_override relay_remote_only 5 = None"
    by (simp add: local_override_def relay_remote_only_simps)
  have b: "validatorSlotMap relay_remote_only 5 = Some vd_remote"
    by (simp add: relay_remote_only_simps)
  have c: "validatorSlotMap relay_booted 6 = None" "validatorSlotMap relay_booted 5 = Some vd_remote"
    by (simp_all add: relay_booted_simps)
  show ?thesis
    using GetValidatorForSlot_precedence [of relay_booted 5 vd_local vd_remote]
      GetValidatorForSlot_precedence [of relay_remote_only 5 vd_local vd_remote]
      GetValidatorForSlot_precedence [of relay_booted 6 vd_local vd_remote]
      local_override_booted_5 local_override_booted_6 a b c
    by simp
qed

lemma NewRemoteRelay_watermark: "lastRequestedSlot (fst (NewRemoteRelay w n ep lr)) = 0"
  by (cases "retry_loop w (Suc n) (fetch w n) 3")
    (auto simp: NewRemoteRelay_def updateValidatorsMap_def update_begin_def update_finish_def
      Let_def split: sum.splits)

lemma relay_down_eq:
  "NewRemoteRelay world_down 0 ''relay'' None =
     (\<lparr>endpoint = ''relay'', localRelay = None, validatorSyncOngoing = False,
       lastRequestedSlot = 0, validatorSlotMap = Map.empty\<rparr>, 4,
      Some (ErrLibrary ''connection refused''))"
proof -
  have "\<forall>k \<le> nat 3. isl (fetch world_down (0 + k))" by (simp add: fetch_down)
  from updateValidatorsMap_fail [OF _ this, of _ 0] show ?thesis
    by (simp add: NewRemoteRelay_def fetch_down)
qed

lemma relay_down_simps:
  "relay_down = \<lparr>endpoint = ''relay'', localRelay = None, validatorSyncOngoing = False,
       lastRequestedSlot = 0, validatorSlotMap = Map.empty\<rparr>"
  by (simp add: relay_down_def relay_down_eq)

text \<open>
  C8, as stated, fails.  The relay is constructed while the remote peer is unreachable,
  and slot 5 is looked up twice, each spawned refresh running to its end before the next
  lookup.  The second lookup is not the first one and slot 5 is not in a later epoch than
  the watermark 0, yet it starts a refresh again: the test is on the watermark being 0.
\<close>

theorem repeated_lookup_counterexample:
  "lookup_trace world_down (relay_down, 4) [5, 5] = [(0, Some (5, 1)), (0, Some (5, 1))] \<and>
   \<not> (5 :: uint64) div 32 > 0 div 32"
proof -
  have idle: "\<not> validatorSyncOngoing relay_down" by (simp add: relay_down_simps)
  have sp: "fst (GetValidatorForSlot relay_down 5) = Some (5, 1)"
    by (simp add: GetValidatorForSlot_def spawned_refresh_def refresh_due_def relay_down_simps)
  have "\<forall>k \<le> nat 1. isl (fetch world_down (4 + k))" by (simp add: fetch_down)
  from updateValidatorsMap_fail [OF idle this, of 5]
  have u: "snd (updateValidatorsMap world_down (relay_down, 4) 5 1) = (relay_down, 6)"
    by simp
  have "lookup_trace world_down (relay_down, 4) [5, 5] = [(0, Some (5, 1)), (0, Some (5, 1))]"
    by (simp add: sp u Let_def) (simp add: relay_down_simps)
  then show ?thesis by simp
qed

text \<open>
  C8, amended.  A lookup starts the refresh \<open>updateValidatorsMap(nextSlot, 1)\<close> exactly
  when the watermark is 0 or the slot lies in a later epoch (slot divided by 32) than the
  watermark.  The watermark is 0 after construction, so the first lookup always starts
  one.  The result of the lookup is read from the relay as it is and does not depend on
  the watermark or the in-progress flag.
\<close>

theorem GetValidatorForSlot_refresh:
  "fst (GetValidatorForSlot r nextSlot) =
     (if lastRequestedSlot r = 0 \<or> lastRequestedSlot r div 32 < nextSlot div 32
      then Some (nextSlot, 1) else None) \<and>
   fst (GetValidatorForSlot (fst (NewRemoteRelay w n ep lr)) nextSlot) = Some (nextSlot, 1) \<and>
   snd (GetValidatorForSlot (r\<lparr>lastRequestedSlot := slot', validatorSyncOngoing := b\<rparr>) nextSlot) =
     snd (GetValidatorForSlot r nextSlot)"
  by (simp add: GetValidatorForSlot_def spawned_refresh_def refresh_due_def NewRemoteRelay_watermark
      lookup_result_def)


text \<open>
  C9.  \<open>NewRemoteRelay\<close> always returns a relay: with the given endpoint and local relay,
  the in-progress flag clear and the watermark 0, after between one and four fetches.  When
  the refresh failed, the error of the fourth fetch is only logged and the map is empty;
  when it succeeded the map is the fetched one, and the watermark is 0 all the same.
\<close>

theorem NewRemoteRelay_usable:
  "\<exists>r' n' logged.
     NewRemoteRelay w n ep lr = (r', n', logged) \<and>
     endpoint r' = ep \<and> localRelay r' = lr \<and>
     \<not> validatorSyncOngoing r' \<and>
     lastRequestedSlot r' = 0 \<and>
     n < n' \<and> n' \<le> n + 4 \<and>
     (case logged of
        Some e \<Rightarrow> fetch w (n' - 1) = Inl e \<and> n' = n + 4 \<and> validatorSlotMap r' = Map.empty
      | None \<Rightarrow> fetch w (n' - 1) = Inr (validatorSlotMap r')) \<and>
     ((\<forall>k \<le> 3. isl (fetch w (n + k))) \<longrightarrow> logged \<noteq> None)"
proof -
  let ?r = "\<lparr>endpoint = ep, localRelay = lr, validatorSyncOngoing = False,
             lastRequestedSlot = 0, validatorSlotMap = Map.empty\<rparr>"
  obtain res m where loop: "retry_loop w (Suc n) (fetch w n) 3 = (res, m)"
    by (cases "retry_loop w (Suc n) (fetch w n) 3") blast
  from retry_loop_range [OF loop] have range: "n < m" "m \<le> n + 4" by simp_all
  from retry_loop_last [OF loop] have last: "res = fetch w (m - 1)" by auto
  have all: "(\<forall>k \<le> 3. isl (fetch w (n + k))) \<longrightarrow> isl res"
  proof
    assume "\<forall>k \<le> 3. isl (fetch w (n + k))"
    then have "\<forall>k \<le> nat 3. isl (fetch w (n + k))" by simp
    from updateValidatorsMap_fail [OF _ this, of ?r 0]
    have "updateValidatorsMap w (?r, n) 0 3 = (Some (projl (fetch w (n + nat 3))), ?r, Suc (n + nat 3))"
      by simp
    then show "isl res"
      using loop by (cases res)
        (simp_all add: updateValidatorsMap_def update_begin_def update_finish_def Let_def)
  qed
  show ?thesis
  proof (cases res)
    case (Inl e)
    from retry_loop_error_exhausts [OF loop [unfolded Inl]] have m: "m = n + 4" by simp
    have "NewRemoteRelay w n ep lr = (?r, m, Some e)"
      by (simp add: NewRemoteRelay_def updateValidatorsMap_def update_begin_def update_finish_def
          loop Inl Let_def)
    then show ?thesis using range m last Inl by simp
  next
    case (Inr newMap)
    have "NewRemoteRelay w n ep lr = (?r\<lparr>validatorSlotMap := newMap\<rparr>, m, None)"
      by (simp add: NewRemoteRelay_def updateValidatorsMap_def update_begin_def update_finish_def
          loop Inr Let_def)
    moreover from all Inr have "\<not> (\<forall>k \<le> 3. isl (fetch w (n + k)))" by auto
    ultimately show ?thesis using range last Inr by simp
  qed
qed

theorem NewRemoteRelay_usable_witness:
  "isl (fetch world_down 0) \<and> isl (fetch world_down 1) \<and>
   isl (fetch world_down 2) \<and> isl (fetch world_down 3) \<and>
   (\<exists>r'. NewRemoteRelay world_down 0 ''relay'' None = (r', 4, Some (ErrLibrary ''connection refused'')) \<and>
      \<not> validatorSyncOngoing r' \<and> lastRequestedSlot r' = 0 \<and> validatorSlotMap r' = Map.empty)"
proof -
  have h: "\<forall>k \<le> 3. isl (fetch world_down (0 + k))" by (simp add: fetch_down)
  from NewRemoteRelay_usable [of world_down 0 "''relay''" None]
  obtain r' n' logged where
    eq: "NewRemoteRelay world_down 0 ''relay'' None = (r', n', logged)"
    and f: "\<not> validatorSyncOngoing r'" and wm: "lastRequestedSlot r' = 0"
    and c: "(case logged of
        Some e \<Rightarrow> fetch world_down (n' - 1) = Inl e \<and> n' = 0 + 4 \<and> validatorSlotMap r' = Map.empty
      | None \<Rightarrow> fetch world_down (n' - 1) = Inr (validatorSlotMap r'))"
    and a: "(\<forall>k \<le> 3. isl (fetch world_down (0 + k))) \<longrightarrow> logged \<noteq> None"
    by blast
  from a h obtain e where l: "logged = Some e" by blast
  with c have "e = ErrLibrary ''connection refused''" "n' = 4" "validatorSlotMap r' = Map.empty"
    by (simp_all add: fetch_down)
  with eq l f wm show ?thesis by (simp add: fetch_down)
qed

section \<open>Properties of header retrieval and block submission\<close>

text \<open>
  C6.  \<open>GetHeader\<close> returns an error exactly when the HTTP request returned one.  A 204
  response, an invalid payload, a payload of value zero and a payload whose transactions
  root is the root of the empty list all make it return success without reaching the line
  that accepts the bid.
\<close>

theorem GetHeader_error_iff_request_fails:
  "(fst (GetHeader r slot parentHashHex pubkey resp) \<noteq> None \<longleftrightarrow> h_err resp \<noteq> None) \<and>
   (h_err resp = None \<and>
      (h_code resp = 204 \<or> IsInvalid (h_dst resp) \<or> Value (h_dst resp) = 0 \<or>
       TransactionsRoot (h_dst resp) = emptyListTxRoot) \<longrightarrow>
      fst (GetHeader r slot parentHashHex pubkey resp) = None \<and>
      \<not> usable_bid_logged (GetHeader r slot parentHashHex pubkey resp))"
  by (auto simp: GetHeader_def usable_bid_logged_def Let_def split: option.splits)

theorem GetHeader_error_iff_request_fails_witness:
  "fst (GetHeader relay_booted 5 ''0x01'' ''0xaa'' (header_http 204 bid)) = None \<and>
   \<not> usable_bid_logged (GetHeader relay_booted 5 ''0x01'' ''0xaa'' (header_http 204 bid)) \<and>
   fst (GetHeader relay_booted 5 ''0x01'' ''0xaa'' (header_http 200 (bid\<lparr>IsInvalid := True\<rparr>))) = None \<and>
   \<not> usable_bid_logged (GetHeader relay_booted 5 ''0x01'' ''0xaa'' (header_http 200 (bid\<lparr>IsInvalid := True\<rparr>))) \<and>
   fst (GetHeader relay_booted 5 ''0x01'' ''0xaa'' (header_http 200 (bid\<lparr>Value := 0\<rparr>))) = None \<and>
   \<not> usable_bid_logged (GetHeader relay_booted 5 ''0x01'' ''0xaa'' (header_http 200 (bid\<lparr>Value := 0\<rparr>))) \<and>
   fst (GetHeader relay_booted 5 ''0x01'' ''0xaa''
          (header_http 200 (bid\<lparr>TransactionsRoot := emptyListTxRoot\<rparr>))) = None \<and>
   \<not> usable_bid_logged (GetHeader relay_booted 5 ''0x01'' ''0xaa''
          (header_http 200 (bid\<lparr>TransactionsRoot := emptyListTxRoot\<rparr>))) \<and>
   usable_bid_logged (GetHeader relay_booted 5 ''0x01'' ''0xaa'' (header_http 200 bid))"
proof -
  have ok: "usable_bid_logged (GetHeader relay_booted 5 ''0x01'' ''0xaa'' (header_http 200 bid))"
    by (simp add: GetHeader_def usable_bid_logged_def header_http_def bid_def emptyListTxRoot_def)
  show ?thesis
    using GetHeader_error_iff_request_fails [of relay_booted 5 "''0x01''" "''0xaa''" "header_http 204 bid"]
      GetHeader_error_iff_request_fails [of relay_booted 5 "''0x01''" "''0xaa''"
        "header_http 200 (bid\<lparr>IsInvalid := True\<rparr>)"]
      GetHeader_error_iff_request_fails [of relay_booted 5 "''0x01''" "''0xaa''"
        "header_http 200 (bid\<lparr>Value := 0\<rparr>)"]
      GetHeader_error_iff_request_fails [of relay_booted 5 "''0x01''" "''0xaa''"
        "header_http 200 (bid\<lparr>TransactionsRoot := emptyListTxRoot\<rparr>)"]
      ok
    by (simp add: header_http_def)
qed

text \<open>
  C7, as stated, fails.  A response with status 101 and no transport error is not a 2xx
  response, yet both submission variants return success: the test is \<open>code > 299\<close>.
\<close>

theorem SubmitBlock_informational_counterexample:
  "h_err (submit_http 101 None) = None \<and>
   \<not> (200 \<le> h_code (submit_http 101 None) \<and> h_code (submit_http 101 None) \<le> 299) \<and>
   fst (SubmitBlock relay_booted ''block'' vd_remote (submit_http 101 None)) = None \<and>
   fst (SubmitBlockCapella relay_booted ''block'' vd_remote (submit_http 101 None)) = None"
  by (simp add: SubmitBlock_def SubmitBlockCapella_def submit_http_def relay_booted_simps)

text \<open>
  C7, amended.  Both submission variants fail exactly when the POST returned an error or
  the status code is above 299, with the same error; a failed submission leaves the relay
  as it was, and a successful one hands the block to the local relay exactly when one is
  configured (and changes nothing else).
\<close>

theorem SubmitBlock_contract:
  "(fst (SubmitBlock r msg vd resp) \<noteq> None \<longleftrightarrow> h_err resp \<noteq> None \<or> h_code resp > 299) \<and>
   fst (SubmitBlockCapella r msg' vd' resp) = fst (SubmitBlock r msg vd resp) \<and>
   (fst (SubmitBlock r msg vd resp) \<noteq> None \<longrightarrow>
      snd (SubmitBlock r msg vd resp) = r \<and> snd (SubmitBlockCapella r msg' vd' resp) = r) \<and>
   (fst (SubmitBlock r msg vd resp) = None \<longrightarrow>
      snd (SubmitBlock r msg vd resp) =
        r\<lparr>localRelay := map_option (\<lambda>l. LocalRelay_submitBlock l msg) (localRelay r)\<rparr> \<and>
      snd (SubmitBlockCapella r msg' vd' resp) =
        r\<lparr>localRelay := map_option (\<lambda>l. LocalRelay_submitBlockCapella l msg') (localRelay r)\<rparr>)"
  by (auto simp: SubmitBlock_def SubmitBlockCapella_def split: option.splits)

theorem SubmitBlock_contract_witness:
  "fst (SubmitBlock relay_booted ''block'' vd_remote (submit_http 200 None)) = None \<and>
   fst (SubmitBlockCapella relay_booted ''block'' vd_remote (submit_http 200 None)) = None \<and>
   localRelay (snd (SubmitBlock relay_booted ''block'' vd_remote (submit_http 200 None))) =
     Some (local_5\<lparr>lr_blocks := [Bellatrix ''block'']\<rparr>) \<and>
   localRelay (snd (SubmitBlockCapella relay_booted ''block'' vd_remote (submit_http 200 None))) =
     Some (local_5\<lparr>lr_blocks := [Capella ''block'']\<rparr>) \<and>
   fst (SubmitBlock relay_booted ''block'' vd_remote (submit_http 500 None)) \<noteq> None \<and>
   snd (SubmitBlock relay_booted ''block'' vd_remote (submit_http 500 None)) = relay_booted \<and>
   snd (SubmitBlockCapella relay_booted ''block'' vd_remote (submit_http 500 None)) = relay_booted"
  using SubmitBlock_contract [of relay_booted "''block''" vd_remote "submit_http 200 None" "''block''" vd_remote]
    SubmitBlock_contract [of relay_booted "''block''" vd_remote "submit_http 500 None" "''block''" vd_remote]
  by (simp add: submit_http_def relay_booted_simps LocalRelay_submitBlock_def
      LocalRelay_submitBlockCapella_def local_5_def)

section \<open>Properties of the pending-transaction loader\<close>

lemma SplitN_space_2_length: "length (SplitN_space_2 line) = 2 \<longleftrightarrow> CHR '' '' \<in> set line"
  by (simp add: SplitN_space_2_def)

lemma scan_lines_spec:
  "scan_lines H U m lines =
     (let ps = parsed_lines H U lines in
      case List.find (\<lambda>p. isl (snd p)) ps of
        Some p \<Rightarrow> Inl (projl (snd p))
      | None \<Rightarrow>
          Inr (\<lambda>a. case m a of
                     None \<Rightarrow> if txs_of a ps = [] then None else Some (txs_of a ps)
                   | Some old \<Rightarrow> Some (old @ txs_of a ps)))"
proof (induction lines arbitrary: m)
  case Nil
  show ?case
    by (auto simp: parsed_lines_def txs_of_def fun_eq_iff split: option.splits)
next
  case (Cons line rest)
  show ?case
  proof (cases "CHR '' '' \<in> set line")
    case False
    then have "parsed_lines H U (line # rest) = parsed_lines H U rest"
      by (simp add: parsed_lines_def)
    moreover have "scan_lines H U m (line # rest) = scan_lines H U m rest"
      using False by (simp add: SplitN_space_2_length)
    ultimately show ?thesis using Cons.IH [of m] by simp
  next
    case True
    let ?a = "H (SplitN_space_2 line ! 0)"
    let ?r = "U (SplitN_space_2 line ! 1)"
    have ps: "parsed_lines H U (line # rest) = (?a, ?r) # parsed_lines H U rest"
      using True by (simp add: parsed_lines_def)
    show ?thesis
    proof (cases ?r)
      case (Inl err)
      then have "scan_lines H U m (line # rest) = Inl err"
        using True by (simp add: SplitN_space_2_length Let_def del: One_nat_def)
      then show ?thesis by (simp add: ps Inl del: One_nat_def)
    next
      case (Inr tx)
      let ?m = "m(?a \<mapsto> (case m ?a of None \<Rightarrow> [] | Some txs \<Rightarrow> txs) @ [tx])"
      have step: "scan_lines H U m (line # rest) = scan_lines H U ?m rest"
        using True Inr by (simp add: SplitN_space_2_length Let_def del: One_nat_def)
      have ps': "parsed_lines H U (line # rest) = (?a, Inr tx) # parsed_lines H U rest"
        using ps Inr by simp
      have tx: "txs_of a ((?a, Inr tx) # P) =
                  (if a = ?a then tx # txs_of a P else txs_of a P)" for a and P :: "('a \<times> (error + 'b)) list"
        by (simp add: txs_of_def)
      show ?thesis
        unfolding step Cons.IH [of ?m] ps'
        by (cases "find (\<lambda>p. isl (snd p)) (parsed_lines H U rest)")
          (auto simp: Let_def tx fun_eq_iff simp del: One_nat_def split: option.splits)
    qed
  qed
qed

lemma find_first_failure:
  "\<forall>p \<in> set ps. \<not> isl (snd p) \<Longrightarrow> isl (snd q) \<Longrightarrow>
     List.find (\<lambda>p. isl (snd p)) (ps @ q # qs) = Some q"
  by (induction ps) simp_all

lemma find_no_failure:
  "List.find (\<lambda>p. isl (snd p)) ps = None \<longleftrightarrow> (\<forall>p \<in> set ps. \<not> isl (snd p))"
  by (induction ps) auto

lemma PendingTxsFromFile_refines:
  "PendingTxsFromFile H U (Inr ls) = PendingTxs_spec H U ls"
  by (simp add: PendingTxsFromFile_def PendingTxs_spec_def Let_def
      scan_lines_spec [of H U Map.empty ls] split: option.splits)

text \<open>
  C10.  \<open>PendingTxsFromFile\<close> computes what \<open>PendingTxs_spec\<close> describes.  A line without
  a space does not split into two fields and is skipped: the result is that of the file
  without the line.  The first two-field line whose transaction fails to decode makes the
  function return that error and no map.  On success every two-field line decoded, and
  each sender's slice holds that sender's transactions in the order of the lines.
\<close>

theorem PendingTxsFromFile_spec:
  "PendingTxsFromFile H U (Inr lines) = PendingTxs_spec H U lines \<and>
   PendingTxsFromFile H U (Inl err) = Inl err \<and>
   (CHR '' '' \<notin> set line \<longrightarrow>
      length (SplitN_space_2 line) \<noteq> 2 \<and>
      PendingTxsFromFile H U (Inr (before @ line # after)) =
        PendingTxsFromFile H U (Inr (before @ after))) \<and>
   (CHR '' '' \<in> set line \<and> U (SplitN_space_2 line ! 1) = Inl err \<and>
    (\<forall>p \<in> set (parsed_lines H U before). \<not> isl (snd p)) \<longrightarrow>
      PendingTxsFromFile H U (Inr (before @ line # after)) = Inl err) \<and>
   (PendingTxsFromFile H U (Inr lines) = Inr m \<longrightarrow>
      (\<forall>p \<in> set (parsed_lines H U lines). \<not> isl (snd p)) \<and>
      (\<forall>a. (case m a of None \<Rightarrow> [] | Some txs \<Rightarrow> txs) = txs_of a (parsed_lines H U lines)))"
proof -
  have skip: "PendingTxs_spec H U (before @ line # after) = PendingTxs_spec H U (before @ after)"
    if "CHR '' '' \<notin> set line"
    using that by (simp add: PendingTxs_spec_def parsed_lines_def)
  have fail: "PendingTxs_spec H U (before @ line # after) = Inl err"
    if l: "CHR '' '' \<in> set line" and u: "U (SplitN_space_2 line ! 1) = Inl err"
      and b: "\<forall>p \<in> set (parsed_lines H U before). \<not> isl (snd p)"
  proof -
    let ?q = "(H (SplitN_space_2 line ! 0), U (SplitN_space_2 line ! 1))"
    have "parsed_lines H U (before @ line # after) =
            parsed_lines H U before @ ?q # parsed_lines H U after"
      using l by (simp add: parsed_lines_def del: One_nat_def)
    moreover have "isl (snd ?q)" using u by (simp del: One_nat_def)
    ultimately have "List.find (\<lambda>p. isl (snd p)) (parsed_lines H U (before @ line # after)) = Some ?q"
      using find_first_failure [OF b] by simp
    then show ?thesis using u by (simp add: PendingTxs_spec_def del: One_nat_def)
  qed
  have ok: "(\<forall>p \<in> set (parsed_lines H U lines). \<not> isl (snd p)) \<and>
      (\<forall>a. (case m a of None \<Rightarrow> [] | Some txs \<Rightarrow> txs) = txs_of a (parsed_lines H U lines))"
    if "PendingTxs_spec H U lines = Inr m"
  proof -
    from that have n: "List.find (\<lambda>p. isl (snd p)) (parsed_lines H U lines) = None"
      by (simp add: PendingTxs_spec_def Let_def split: option.splits)
    with that have "m = (\<lambda>a. if txs_of a (parsed_lines H U lines) = [] then None
                              else Some (txs_of a (parsed_lines H U lines)))"
      by (simp add: PendingTxs_spec_def Let_def)
    then show ?thesis using n by (simp add: find_no_failure)
  qed
  have "PendingTxsFromFile H U (Inl err) = Inl err" by (simp add: PendingTxsFromFile_def)
  then show ?thesis
    using skip fail ok by (simp add: PendingTxsFromFile_refines SplitN_space_2_length del: One_nat_def)
qed

theorem PendingTxsFromFile_spec_witness:
  "PendingTxsFromFile (\<lambda>s. s) toy_unmarshal (Inr toy_lines) =
     Inr [''0xB'' \<mapsto> [2], ''0xA'' \<mapsto> [1, 3]] \<and>
   PendingTxsFromFile (\<lambda>s. s) toy_unmarshal (Inr toy_lines) =
     PendingTxsFromFile (\<lambda>s. s) toy_unmarshal (Inr [''0xA {n:1}'', ''0xB {n:2}'', ''0xA {n:3}'']) \<and>
   txs_of ''0xA'' (parsed_lines (\<lambda>s. s) toy_unmarshal toy_lines) = [1, 3] \<and>
   PendingTxsFromFile (\<lambda>s. s) toy_unmarshal (Inr toy_bad_lines) = Inl (ErrLibrary ''bad'')"
proof -
  have r: "PendingTxsFromFile (\<lambda>s. s) toy_unmarshal (Inr toy_lines) =
     Inr [''0xB'' \<mapsto> [2], ''0xA'' \<mapsto> [1, 3]]"
    by (simp add: PendingTxsFromFile_def toy_lines_def SplitN_space_2_def toy_unmarshal_def)
  have g: "CHR '' '' \<notin> set ''garbage''" by simp
  have b: "toy_bad_lines = [''0xA {n:1}'', ''garbage''] @ ''0xB bad'' # [''0xA worse'']"
    by (simp add: toy_bad_lines_def)
  have b1: "CHR '' '' \<in> set ''0xB bad''" by simp
  have b2: "toy_unmarshal (SplitN_space_2 ''0xB bad'' ! 1) = Inl (ErrLibrary ''bad'')"
    by (simp add: SplitN_space_2_def toy_unmarshal_def)
  have b3: "\<forall>p \<in> set (parsed_lines (\<lambda>s. s) toy_unmarshal [''0xA {n:1}'', ''garbage'']). \<not> isl (snd p)"
    by (simp add: parsed_lines_def SplitN_space_2_def toy_unmarshal_def)
  note th = PendingTxsFromFile_spec [of "\<lambda>s. s" toy_unmarshal toy_lines "ErrLibrary ''bad''"
      "''garbage''" "[''0xA {n:1}'']" "[''0xB {n:2}'', ''0xA {n:3}'']"
      "[''0xB'' \<mapsto> [2], ''0xA'' \<mapsto> [1, 3]]", unfolded append_Cons append_Nil]
  from th g
  have "PendingTxsFromFile (\<lambda>s. s) toy_unmarshal
          (Inr [''0xA {n:1}'', ''garbage'', ''0xB {n:2}'', ''0xA {n:3}'']) =
     PendingTxsFromFile (\<lambda>s. s) toy_unmarshal (Inr [''0xA {n:1}'', ''0xB {n:2}'', ''0xA {n:3}''])"
    by blast
  then have s1: "PendingTxsFromFile (\<lambda>s. s) toy_unmarshal (Inr toy_lines) =
     PendingTxsFromFile (\<lambda>s. s) toy_unmarshal (Inr [''0xA {n:1}'', ''0xB {n:2}'', ''0xA {n:3}''])"
    unfolding toy_lines_def .
  from th r
  have "\<forall>a. (case [''0xB'' \<mapsto> [2], ''0xA'' \<mapsto> [1, 3 :: nat]] a of None \<Rightarrow> [] | Some txs \<Rightarrow> txs) =
          txs_of a (parsed_lines (\<lambda>s. s) toy_unmarshal toy_lines)"
    by blast
  from this [THEN spec, of "''0xA''"]
  have s2: "txs_of ''0xA'' (parsed_lines (\<lambda>s. s) toy_unmarshal toy_lines) = [1, 3]"
    by simp
  from PendingTxsFromFile_spec [of "\<lambda>s. s" toy_unmarshal toy_lines "ErrLibrary ''bad''"
      "''0xB bad''" "[''0xA {n:1}'', ''garbage'']" "[''0xA worse'']"
      "[''0xB'' \<mapsto> [2], ''0xA'' \<mapsto> [1, 3]]"] b1 b2 b3
  have s3: "PendingTxsFromFile (\<lambda>s. s) toy_unmarshal (Inr toy_bad_lines) = Inl (ErrLibrary ''bad'')"
    unfolding b [symmetric] by blast
  from r s1 s2 s3 show ?thesis by blast
qed

section \<open>Properties of the greedy builder\<close>

lemma merge_loop_continue: "merge_step d s = Some s' \<Longrightarrow> merge_loop d s = merge_loop d s'"
  by (subst merge_loop.simps) simp

lemma merge_loop_break: "merge_step d s = None \<Longrightarrow> merge_loop d s = Some s"
  by (subst merge_loop.simps) simp

lemma merge_step_usedBundles:
  "merge_step d s = Some s' \<Longrightarrow> \<exists>rest. usedBundles s' = usedBundles s @ rest"
  by (auto simp: merge_step_def Let_def split: option.splits prod.splits)

lemma merge_loop_usedBundles:
  assumes "merge_loop d s = Some final"
  shows "\<exists>rest. usedBundles final = usedBundles s @ rest"
proof (rule merge_loop.raw_induct
    [where P = "\<lambda>d s final. \<exists>rest. usedBundles final = usedBundles s @ rest", OF _ assms])
  fix loop d s final
  assume IH: "\<And>d' s' y. loop d' s' = Some y \<Longrightarrow> \<exists>rest. usedBundles y = usedBundles s' @ rest"
    and eq: "(case merge_step d s of None \<Rightarrow> Some s | Some s' \<Rightarrow> loop d s') = Some final"
  show "\<exists>rest. usedBundles final = usedBundles s @ rest"
  proof (cases "merge_step d s")
    case None
    with eq show ?thesis by simp
  next
    case (Some s')
    with eq have "loop d s' = Some final" by simp
    from IH [OF this] obtain r1 where "usedBundles final = usedBundles s' @ r1" ..
    moreover from merge_step_usedBundles [OF Some] obtain r2
      where "usedBundles s' = usedBundles s @ r2" ..
    ultimately show ?thesis by simp
  qed
qed

lemma merge_loop_returns:
  assumes inv: "\<And>s s'. I s \<Longrightarrow> merge_step d s = Some s' \<Longrightarrow> I s' \<and> m s' < (m s :: nat)"
  shows "I s \<Longrightarrow> \<exists>final. merge_loop d s = Some final \<and> merge_step d final = None"
proof (induction "m s" arbitrary: s rule: less_induct)
  case less
  show ?case
  proof (cases "merge_step d s")
    case None
    then show ?thesis by (auto simp: merge_loop_break)
  next
    case (Some s')
    from inv [OF less.prems Some] have "I s'" "m s' < m s" by simp_all
    from less.hyps [OF this(2) this(1)] show ?thesis
      by (simp add: merge_loop_continue [OF Some])
  qed
qed

text \<open>
  C4.  In an iteration whose peeked order is a bundle, the supply is popped once, whether
  \<open>commitBundle\<close> fails or not, and the loop goes on from there; the bundle is appended
  to the used bundles exactly when \<open>commitBundle\<close> returned no error, and the list the
  function returns extends the list of that moment.
\<close>

theorem bundle_popped_once:
  assumes "Peek d (orders s) = Some order"
    and "Tx order = None"
    and "Bundle order = Some bundle"
    and "commitBundle d (envDiff s) bundle = (err, env')"
  shows "\<exists>s'. merge_step d s = Some s' \<and>
           orders s' = Pop d (orders s) \<and>
           envDiff s' = env' \<and>
           usedBundles s' = (if err = None then usedBundles s @ [bundle] else usedBundles s) \<and>
           merge_loop d s = merge_loop d s' \<and>
           (\<forall>final. merge_loop d s = Some final \<longrightarrow>
              (\<exists>rest. usedBundles final =
                 usedBundles s @ (if err = None then [bundle] else []) @ rest))"
proof -
  obtain s' where step: "merge_step d s = Some s'"
    and o: "orders s' = Pop d (orders s)" and e: "envDiff s' = env'"
    and u: "usedBundles s' = (if err = None then usedBundles s @ [bundle] else usedBundles s)"
    using assms by (cases err) (simp_all add: merge_step_def Let_def)
  have c: "merge_loop d s = merge_loop d s'" by (rule merge_loop_continue [OF step])
  have "\<exists>rest. usedBundles final = usedBundles s @ (if err = None then [bundle] else []) @ rest"
    if "merge_loop d s = Some final" for final
  proof -
    from that c have "merge_loop d s' = Some final" by simp
    from merge_loop_usedBundles [OF this] u show ?thesis by auto
  qed
  with step o e u c show ?thesis by blast
qed

text \<open>
  C5, amended.  In an iteration whose peeked order is a transaction for which \<open>commitTx\<close>
  returns an error, the supply is moved as the disposition returned with the error says
  (\<open>Shift\<close> for \<open>shiftTx\<close>, \<open>Pop\<close> for \<open>popTx\<close>, not at all otherwise), nothing is added
  to the used bundles, and the loop goes on with the next iteration: the error does not
  end it.
\<close>

theorem tx_error_step:
  assumes "Peek d (orders s) = Some order"
    and "Tx order = Some tx"
    and "commitTx d (envDiff s) tx = (receipt, skip, Some err, env')"
  shows "\<exists>s'. merge_step d s = Some s' \<and>
           orders s' =
             (if skip = shiftTx d then Shift d (orders s)
              else if skip = popTx d then Pop d (orders s)
              else orders s) \<and>
           envDiff s' = env' \<and>
           usedBundles s' = usedBundles s \<and>
           merge_loop d s = merge_loop d s'"
proof -
  obtain s' where step: "merge_step d s = Some s'"
    and o: "orders s' = apply_skip d skip (orders s)" and e: "envDiff s' = env'"
    and u: "usedBundles s' = usedBundles s"
    using assms by (simp add: merge_step_def Let_def)
  from merge_loop_continue [OF step] step o e u show ?thesis
    by (auto simp: apply_skip_def)
qed

lemma toy_simps:
  "Peek toy = supply_Peek" "Shift toy = supply_Shift" "Pop toy = supply_Pop"
  "commitTx toy = toy_commitTx" "commitBundle toy = toy_commitBundle"
  "EffectiveGasTip toy = (\<lambda>t env. None)" "shiftTx toy = 1" "popTx toy = 2"
  by (simp_all add: toy_def)

lemmas toy_eval =
  merge_step_def apply_skip_def toy_simps supply_Peek_def supply_Pop_def supply_Shift_def
  toy_commitTx_def toy_commitBundle_def tx_of_def bundle_of_def order_price_def start_def Let_def

text \<open>
  C5, as stated, fails.  The sender's first transaction runs out of gas: \<open>commitTx\<close>
  returns an error together with the disposition \<open>popTx\<close>.  The loop does not advance the
  sender's cursor to the transaction behind it, as \<open>Shift\<close> would; it pops, and the
  sender's remaining queue is gone.
\<close>

theorem tx_error_drop_counterexample:
  "Peek toy (orders (start supply_out_of_gas)) = Some (tx_of 1 0 0) \<and>
   commitTx toy 0 \<lparr>sender = 1, nonce = 0, gasPrice = 0\<rparr> =
     (None, popTx toy, Some (ErrLibrary ''gas limit reached''), 0) \<and>
   merge_step toy (start supply_out_of_gas) =
     Some \<lparr>envDiff = 0, orders = \<lparr>heads = [], waiting = []\<rparr>, usedBundles = [], txCount = 1,
            bundleCount = 0, logged = [Trace ''could not apply tx'']\<rparr> \<and>
   Shift toy supply_out_of_gas = \<lparr>heads = [tx_of 1 1 7], waiting = []\<rparr> \<and>
   Pop toy supply_out_of_gas = \<lparr>heads = [], waiting = []\<rparr>"
  by (simp add: toy_eval supply_out_of_gas_def)

lemma run_mixed:
  "merge_loop toy (start supply_mixed) =
     Some \<lparr>envDiff = 121000, orders = \<lparr>heads = [], waiting = []\<rparr>,
            usedBundles = [\<lparr>mevGasPrice = 30, bundleHash = ''C''\<rparr>], txCount = 2, bundleCount = 2,
            logged = [Info ''Included bundle'', Trace ''could not apply tx'', Info ''Included tx'',
                      Trace ''Could not apply bundle'']\<rparr>"
  by (simp add: merge_loop.simps toy_eval supply_mixed_def)


theorem bundle_popped_once_witness:
  "Peek toy (orders (start supply_mixed)) = Some (bundle_of 30 ''C'') \<and>
   commitBundle toy 0 \<lparr>mevGasPrice = 30, bundleHash = ''C''\<rparr> = (None, 100000) \<and>
   (\<exists>s'. merge_step toy (start supply_mixed) = Some s' \<and>
      orders s' = Pop toy supply_mixed \<and>
      usedBundles s' = [\<lparr>mevGasPrice = 30, bundleHash = ''C''\<rparr>]) \<and>
   Peek toy (orders (start supply_failing)) = Some (bundle_of 0 ''D'') \<and>
   commitBundle toy 0 \<lparr>mevGasPrice = 0, bundleHash = ''D''\<rparr> = (Some (ErrLibrary ''bundle failed''), 0) \<and>
   (\<exists>s'. merge_step toy (start supply_failing) = Some s' \<and>
      orders s' = Pop toy supply_failing \<and>
      usedBundles s' = [])"
proof -
  have a1: "Peek toy (orders (start supply_mixed)) = Some (bundle_of 30 ''C'')"
    by (simp add: toy_eval supply_mixed_def)
  have a2: "Tx (bundle_of 30 ''C'') = None"
    and a3: "Bundle (bundle_of 30 ''C'') = Some \<lparr>mevGasPrice = 30, bundleHash = ''C''\<rparr>"
    by (simp_all add: bundle_of_def)
  have a4: "commitBundle toy (envDiff (start supply_mixed)) \<lparr>mevGasPrice = 30, bundleHash = ''C''\<rparr> =
              (None, 100000)"
    by (simp add: toy_eval)
  have b1: "Peek toy (orders (start supply_failing)) = Some (bundle_of 0 ''D'')"
    by (simp add: toy_eval supply_failing_def)
  have b2: "Tx (bundle_of 0 ''D'') = None"
    and b3: "Bundle (bundle_of 0 ''D'') = Some \<lparr>mevGasPrice = 0, bundleHash = ''D''\<rparr>"
    by (simp_all add: bundle_of_def)
  have b4: "commitBundle toy (envDiff (start supply_failing)) \<lparr>mevGasPrice = 0, bundleHash = ''D''\<rparr> =
              (Some (ErrLibrary ''bundle failed''), 0)"
    by (simp add: toy_eval)
  from bundle_popped_once [OF a1 a2 a3 a4]
  have c1: "\<exists>s'. merge_step toy (start supply_mixed) = Some s' \<and>
      orders s' = Pop toy supply_mixed \<and>
      usedBundles s' = [\<lparr>mevGasPrice = 30, bundleHash = ''C''\<rparr>]"
    by (auto simp: start_def)
  from bundle_popped_once [OF b1 b2 b3 b4]
  have c2: "\<exists>s'. merge_step toy (start supply_failing) = Some s' \<and>
      orders s' = Pop toy supply_failing \<and>
      usedBundles s' = []"
    by (auto simp: start_def)
  from a1 a4 b1 b4 c1 c2 show ?thesis by (simp add: start_def)
qed

theorem tx_error_step_witness:
  "Peek toy (orders (start supply_stale)) = Some (tx_of 1 0 1) \<and>
   commitTx toy 0 \<lparr>sender = 1, nonce = 0, gasPrice = 1\<rparr> =
     (None, shiftTx toy, Some (ErrLibrary ''nonce too low''), 0) \<and>
   (\<exists>s'. merge_step toy (start supply_stale) = Some s' \<and>
      orders s' = Shift toy supply_stale \<and>
      usedBundles s' = [] \<and>
      merge_loop toy (start supply_stale) = merge_loop toy s') \<and>
   Peek toy (orders (start supply_out_of_gas)) = Some (tx_of 1 0 0) \<and>
   commitTx toy 0 \<lparr>sender = 1, nonce = 0, gasPrice = 0\<rparr> =
     (None, popTx toy, Some (ErrLibrary ''gas limit reached''), 0) \<and>
   (\<exists>s'. merge_step toy (start supply_out_of_gas) = Some s' \<and>
      orders s' = Pop toy supply_out_of_gas \<and>
      usedBundles s' = [] \<and>
      merge_loop toy (start supply_out_of_gas) = merge_loop toy s')"
proof -
  have a1: "Peek toy (orders (start supply_stale)) = Some (tx_of 1 0 1)"
    by (simp add: toy_eval supply_stale_def)
  have a2: "Tx (tx_of 1 0 1) = Some \<lparr>sender = 1, nonce = 0, gasPrice = 1\<rparr>"
    by (simp add: tx_of_def)
  have a3: "commitTx toy (envDiff (start supply_stale)) \<lparr>sender = 1, nonce = 0, gasPrice = 1\<rparr> =
              (None, 1, Some (ErrLibrary ''nonce too low''), 0)"
    by (simp add: toy_eval)
  have b1: "Peek toy (orders (start supply_out_of_gas)) = Some (tx_of 1 0 0)"
    by (simp add: toy_eval supply_out_of_gas_def)
  have b2: "Tx (tx_of 1 0 0) = Some \<lparr>sender = 1, nonce = 0, gasPrice = 0\<rparr>"
    by (simp add: tx_of_def)
  have b3: "commitTx toy (envDiff (start supply_out_of_gas)) \<lparr>sender = 1, nonce = 0, gasPrice = 0\<rparr> =
              (None, 2, Some (ErrLibrary ''gas limit reached''), 0)"
    by (simp add: toy_eval)
  from tx_error_step [OF a1 a2 a3]
  have c1: "\<exists>s'. merge_step toy (start supply_stale) = Some s' \<and>
      orders s' = Shift toy supply_stale \<and>
      usedBundles s' = [] \<and>
      merge_loop toy (start supply_stale) = merge_loop toy s'"
    by (auto simp: start_def toy_simps)
  from tx_error_step [OF b1 b2 b3]
  have c2: "\<exists>s'. merge_step toy (start supply_out_of_gas) = Some s' \<and>
      orders s' = Pop toy supply_out_of_gas \<and>
      usedBundles s' = [] \<and>
      merge_loop toy (start supply_out_of_gas) = merge_loop toy s'"
    by (auto simp: start_def toy_simps)
  from a1 a3 b1 b3 c1 c2 show ?thesis by (simp add: start_def toy_simps)
qed

lemma length_insert_by_price: "length (insert_by_price x hs) = Suc (length hs)"
  by (induction hs) simp_all

lemma list_all_insert_by_price:
  "list_all P (insert_by_price x hs) \<longleftrightarrow> P x \<and> list_all P hs"
  by (induction hs) auto

lemma find_remove1_shorter:
  "List.find P ws = Some u \<Longrightarrow> Suc (length (remove1 u ws)) = length ws"
  by (induction ws) (auto split: if_splits)

lemma toy_step_decreases:
  assumes "well_formed s" and "merge_step toy s = Some s'"
  shows "well_formed s' \<and> remaining s' < remaining s"
proof (cases "heads (orders s)")
  case Nil
  with assms(2) show ?thesis by (simp add: merge_step_def toy_simps supply_Peek_def)
next
  case (Cons h hs)
  from assms(1) Cons have h: "Tx h \<noteq> None \<or> Bundle h \<noteq> None" and hs: "list_all (\<lambda>x. Tx x \<noteq> None \<or> Bundle x \<noteq> None) hs"
    by (simp_all add: well_formed_def)
  have pop: "list_all (\<lambda>x. Tx x \<noteq> None \<or> Bundle x \<noteq> None) (heads (supply_Pop (orders s))) \<and>
      length (heads (supply_Pop (orders s))) + length (waiting (supply_Pop (orders s))) <
        length (heads (orders s)) + length (waiting (orders s))"
    using Cons hs by (auto simp: supply_Pop_def less_Suc_eq_le split: option.splits)
  have shift: "list_all (\<lambda>x. Tx x \<noteq> None \<or> Bundle x \<noteq> None) (heads (supply_Shift (orders s))) \<and>
      length (heads (supply_Shift (orders s))) + length (waiting (supply_Shift (orders s))) <
        length (heads (orders s)) + length (waiting (orders s))"
    using Cons hs
    by (auto simp: supply_Shift_def list_all_insert_by_price length_insert_by_price
        dest: find_remove1_shorter split: option.splits)
  show ?thesis
  proof (cases "Tx h")
    case (Some t)
    then show ?thesis
      using assms(2) Cons pop shift
      by (auto simp: merge_step_def toy_simps supply_Peek_def apply_skip_def toy_commitTx_def
          well_formed_def remaining_def Let_def split: if_splits)
  next
    case None
    with h obtain b where "Bundle h = Some b" by auto
    with None show ?thesis
      using assms(2) Cons pop
      by (auto simp: merge_step_def toy_simps supply_Peek_def toy_commitBundle_def
          well_formed_def remaining_def Let_def split: if_splits)
  qed
qed

lemma toy_build_returns:
  "well_formed s \<Longrightarrow> \<exists>final. merge_loop toy s = Some final \<and> Peek toy (orders final) = None"
proof -
  assume "well_formed s"
  from merge_loop_returns [of well_formed toy remaining, OF toy_step_decreases this]
  obtain final where f: "merge_loop toy s = Some final" and n: "merge_step toy final = None"
    by blast
  from n have "Peek toy (orders final) = None"
    by (auto simp: merge_step_def Let_def split: option.splits prod.splits)
  with f show ?thesis by blast
qed

end
